theory Spec2Isabelle
  imports Complex_Main "HOL-Library.AList"
begin

section \<open>The Run-Until-Correct loop\<close>

text \<open>
  The README gives the loop that drives a run:
  \<^verbatim>\<open>
  for (let t = 0; t < spec.resourceConstraints.maxIterations; t++) {
    const failing = await evaluateMustCriteria(spec, outputs);
    if (failing.length === 0) return SUCCESS;
    if (isStagnant(failing, history)) return FAILURE;
    outputs = await refine(outputs, failing);
  }
  return FAILURE;
  \<close>
  The three callees are not part of the repository; they are parameters of the model.
  \<open>evaluateMustCriteria\<close> maps the current outputs to the list of failing MUST criteria
  (the contract is fixed during a run), \<open>isStagnant\<close> reads the history and may update it,
  \<open>refine\<close> produces the next outputs. \<open>maxIterations\<close> is an optional field of
  \<open>ResourceConstraints\<close>: when it is absent the comparison \<open>t < undefined\<close> is false.
\<close>

datatype verdict = SUCCESS | FAILURE

fun withinBudget :: "nat \<Rightarrow> int option \<Rightarrow> bool" where
  "withinBudget t None = False"
| "withinBudget t (Some m) = (int t < m)"

definition iterationsLeft :: "int option \<Rightarrow> nat \<Rightarrow> nat" where
  "iterationsLeft m t = nat (case m of None \<Rightarrow> 0 | Some k \<Rightarrow> k) - t"

lemma withinBudget_iterationsLeft:
  "withinBudget t m \<Longrightarrow> iterationsLeft m (Suc t) < iterationsLeft m t"
  by (cases m) (auto simp: iterationsLeft_def)

function runUntilCorrect_from ::
  "('o \<Rightarrow> 'c list) \<Rightarrow> ('c list \<Rightarrow> 'h \<Rightarrow> bool \<times> 'h) \<Rightarrow> ('o \<Rightarrow> 'c list \<Rightarrow> 'o) \<Rightarrow>
   int option \<Rightarrow> nat \<Rightarrow> 'h \<Rightarrow> 'o \<Rightarrow> verdict" where
  "runUntilCorrect_from evaluateMustCriteria isStagnant refine maxIterations t history outputs =
     (if withinBudget t maxIterations then
        (let failing = evaluateMustCriteria outputs in
         if length failing = 0 then SUCCESS
         else (case isStagnant failing history of
                 (True, history') \<Rightarrow> FAILURE
               | (False, history') \<Rightarrow>
                   runUntilCorrect_from evaluateMustCriteria isStagnant refine maxIterations
                     (t + 1) history' (refine outputs failing)))
      else FAILURE)"
  by pat_completeness auto
termination
  by (relation "measure (\<lambda>(e, s, r, m, t, h, out). iterationsLeft m t)")
     (auto intro: withinBudget_iterationsLeft)

declare runUntilCorrect_from.simps [simp del]

definition runUntilCorrect ::
  "('o \<Rightarrow> 'c list) \<Rightarrow> ('c list \<Rightarrow> 'h \<Rightarrow> bool \<times> 'h) \<Rightarrow> ('o \<Rightarrow> 'c list \<Rightarrow> 'o) \<Rightarrow>
   int option \<Rightarrow> 'h \<Rightarrow> 'o \<Rightarrow> verdict" where
  "runUntilCorrect evaluateMustCriteria isStagnant refine maxIterations history outputs =
     runUntilCorrect_from evaluateMustCriteria isStagnant refine maxIterations 0 history outputs"

text \<open>
  \<open>iterationState k\<close> is the history and the outputs with which iteration \<open>k\<close> (counted
  from the iteration the loop is at) starts, when the \<open>k\<close> iterations before it all went
  on to \<open>refine\<close>; it is \<open>None\<close> when one of them returned.
\<close>

fun iterationState ::
  "('o \<Rightarrow> 'c list) \<Rightarrow> ('c list \<Rightarrow> 'h \<Rightarrow> bool \<times> 'h) \<Rightarrow> ('o \<Rightarrow> 'c list \<Rightarrow> 'o) \<Rightarrow>
   nat \<Rightarrow> 'h \<Rightarrow> 'o \<Rightarrow> ('h \<times> 'o) option" where
  "iterationState ev st rf 0 h out = Some (h, out)"
| "iterationState ev st rf (Suc k) h out =
     (if ev out = [] then None
      else (case st (ev out) h of
              (True, h') \<Rightarrow> None
            | (False, h') \<Rightarrow> iterationState ev st rf k h' (rf out (ev out))))"

subsection \<open>Concrete runs\<close>

text \<open>
  Callees for concrete runs: outputs are a number of defects still open, each evaluation
  reports one failing criterion per open defect, and each refinement closes one.
\<close>

definition openDefects :: "nat \<Rightarrow> string list" where
  "openDefects outputs = replicate outputs ''AC-1''"

definition neverStagnant :: "string list \<Rightarrow> unit \<Rightarrow> bool \<times> unit" where
  "neverStagnant failing history = (False, history)"

definition closeOneDefect :: "nat \<Rightarrow> string list \<Rightarrow> nat" where
  "closeOneDefect outputs failing = outputs - 1"


section \<open>The contract model\<close>

text \<open>
  The interfaces of \<open>spec-integrity-and-universal-validators.ts\<close>, field by field. A value
  of type \<open>unknown\<close> is a JSON value; an object is the list of its own properties, read
  with \<open>map_of\<close>. A number is the rational that the double denotes. A string is the
  sequence of bytes of its UTF-8 encoding. Field names that two interfaces share get a
  prefix in all but one of them.

  A contract reaches the module as parsed YAML or JSON, and the code guards against
  properties that the interfaces declare but the data lacks (\<open>Array.isArray(a.formats)\<close>,
  \<open>a.dependsOn ?? []\<close>, \<open>ac.rule?.rubricRef\<close>, \<open>ac.targetArtifacts ?? []\<close>); the contract
  of the README's quick start has no \<open>packaging\<close>, \<open>delivery\<close> or \<open>provenancePolicy\<close>, and
  its artifact has no \<open>formats\<close> and no \<open>dependsOn\<close>. So a property may be absent:

  \<^item> a property that the interface marks optional (\<open>?\<close>) is an \<open>option\<close>;
  \<^item> so is every array and every nested object that the interface requires: some
    statement of the module reads it without a guard and throws a \<open>TypeError\<close> when it
    is absent, or repairs it;
  \<^item> an absent scalar is represented by the value that every read in the module treats
    like \<open>undefined\<close>: the empty string for \<open>artifactId\<close> (\<open>!a.artifactId\<close>), \<open>kind\<close> and
    \<open>mediaType\<close> (\<open>?? ""\<close>), \<open>false\<close> for \<open>required\<close>; an absent \<open>artifacts\<close> array is
    the empty list (\<open>!spec.artifacts || spec.artifacts.length === 0\<close>), an absent \<open>team\<close>
    the empty list (\<open>ctx.team?.map(...) ?? []\<close>).

  A property that holds a value of another type than the declared one (a string where
  an array is declared) is outside the model.
\<close>

datatype json =
    JNull
  | JBool bool
  | JNum rat
  | JStr string
  | JArr "json list"
  | JObj "(string \<times> json) list"

datatype Severity = Must | Should | May
datatype EvidenceType = Auto | AiJudged | Human | Hybrid
datatype GateWhen = BeforeFinal | BeforePackaging | BeforeDelivery
datatype QualityLevel = Draft | Reviewed | Production
datatype ACType =
    AcSchema | AcStructure | AcTraceability | AcConsistency | AcRubric
  | AcConstraint | AcExecution | AcSecurity | AcProvenance | AcCustom
datatype RelationshipType =
    DerivesFrom | Informs | Implements | Tests | Summarizes | References | DependsOn
datatype ApprovalType = ApprovalAuto | ApprovalAi | ApprovalHuman
datatype PackagingMethod = Bundle | Compose | Transform

record Format =
  mediaType :: string
  uri :: string

record ArtifactSpec =
  artifactId :: string
  kind :: string
  subtype :: "string option"
  description :: string
  formats :: "Format list option"
  required :: bool
  dependsOn :: "string list option"
  owners :: "string list option"
  qualityLevel :: "QualityLevel option"
  metadata :: "json option"

record RelationshipSpec =
  relType :: RelationshipType
  relFrom :: string
  relTo :: string
  relNotes :: "string option"

record EvidenceSpec =
  evRequired :: bool
  evidenceType :: EvidenceType
  producedArtifact :: "string option"

record AcceptanceCriterionSpec =
  acId :: string
  targetArtifacts :: "string list option"
  acType :: ACType
  severity :: Severity
  rule :: "(string \<times> json) list option"
  evidence :: "EvidenceSpec option"

record RubricSpec =
  rubricId :: string
  scale :: "rat list"
  anchors :: "(string \<times> string) list"
  passThreshold :: rat

record RequiredApprovalSpec =
  approvalType :: ApprovalType
  approvalRole :: "string option"
  optional :: "bool option"
  approvalRubricId :: "string option"
  approvalPassThreshold :: "rat option"
  approvalRule :: "json option"

record GateSpec =
  gateId :: string
  gateWhen :: GateWhen
  requiredApprovals :: "RequiredApprovalSpec list option"

record PackagingSpec =
  packageId :: string
  inputs :: "string list option"
  packagingMethod :: PackagingMethod
  packagingFormat :: string
  packagingUri :: string
  manifestRequired :: bool

record DeliverySpec =
  deliveryId :: string
  channel :: string
  target :: string
  deliveryUri :: string
  notify :: "string list option"

record ProvenancePolicySpec =
  policyId :: string
  require :: "string list option"
  strength :: string

record ResourceConstraints =
  maxIterations :: "rat option"
  maxTimeMs :: "rat option"
  maxCostUsd :: "rat option"
  stagnationWindow :: "rat option"

record VCCSpec =
  vccVersion :: string
  specId :: string
  title :: string
  summary :: string
  intent :: "json option"
  artifacts :: "ArtifactSpec list"
  relationships :: "RelationshipSpec list option"
  acceptance :: "AcceptanceCriterionSpec list option"
  rubrics :: "RubricSpec list option"
  gates :: "GateSpec list option"
  packaging :: "PackagingSpec list option"
  delivery :: "DeliverySpec list option"
  provenancePolicy :: "ProvenancePolicySpec option"
  riskControls :: "json option"
  resourceConstraints :: "ResourceConstraints option"

subsection \<open>Run context and stores\<close>

text \<open>
  A promise that rejects, or a \<open>throw\<close>, is the left injection of a sum. The artifact
  store is an external object: its methods are functions on a state \<open>'st\<close> that the
  context carries along (\<open>storeState\<close>), returned updated by a write.
\<close>

datatype exn =
    ArtifactNotFound string
  | StoreFailure string
  | RegExpSyntaxError string
  | TypeError string
  | ReferenceError string
  | JudgeFailure string

record AiJudgeScore =
  score :: rat
  rationale :: string
  judgeRubricId :: "string option"
  model :: "string option"

record AiJudgeArgs =
  rubricText :: string
  content :: string
  judgePassThreshold :: json
  judgeAcId :: string

record ProvenanceSignals =
  inputsEnumerated :: bool
  toolingRecorded :: bool
  agentActionsLogged :: bool
  artifactHashesRecorded :: bool
  dependenciesRecorded :: bool
  parametersRecorded :: bool
  attestationSigned :: bool

record 'st ArtifactStore =
  storeExists :: "'st \<Rightarrow> string \<Rightarrow> exn + bool"
  readText :: "'st \<Rightarrow> string \<Rightarrow> exn + string"
  writeText :: "'st \<Rightarrow> string \<Rightarrow> string \<Rightarrow> exn + 'st"
  hash :: "'st \<Rightarrow> string \<Rightarrow> exn + string"
  storeState :: 'st

record TeamMember =
  role :: string
  agentId :: string

record 'st RunContext =
  aiJudge :: "(AiJudgeArgs \<Rightarrow> exn + AiJudgeScore) option"
  runId :: string
  workspaceRoot :: string
  team :: "TeamMember list"
  ctxArtifacts :: "'st ArtifactStore"
  provenanceSignals :: "ProvenanceSignals option"

subsection \<open>Errors and results\<close>

datatype IntegrityIssueSeverity = IssueError | IssueWarning

text \<open>
  An issue is identified by its severity, code and path; the free-text \<open>message\<close> is not
  modelled.
\<close>

record IntegrityIssue =
  issueSeverity :: IntegrityIssueSeverity
  code :: string
  path :: string

record Normalized =
  artifactIds :: "string list"
  mustACs :: "string list"

record IntegrityResult =
  resultSpec :: VCCSpec
  issues :: "IntegrityIssue list"
  normalized :: Normalized

datatype Status = Pass | Fail | Skip

text \<open>A validation result; its free-form \<open>details\<close> object is not modelled.\<close>

record ResultEvidence =
  resEvidenceType :: EvidenceType
  resUri :: "string option"
  sha256Digest :: "string option"

record ValidationResult =
  resAcId :: string
  status :: Status
  resSeverity :: Severity
  resSummary :: string
  resEvidence :: "ResultEvidence option"

record 'st ValidatorAdapter =
  validatorId :: string
  supportedTypes :: "ACType list"
  canValidate :: "AcceptanceCriterionSpec \<Rightarrow> VCCSpec \<Rightarrow> 'st RunContext \<Rightarrow> bool option"
  validate :: "AcceptanceCriterionSpec \<Rightarrow> VCCSpec \<Rightarrow> 'st RunContext \<Rightarrow>
               exn + (ValidationResult \<times> 'st RunContext)"

record 'st AdapterRegistry =
  validators :: "'st ValidatorAdapter list"

record IntegrityOptions =
  injectUniversalDefaults :: "bool option"
  requireMustCoverage :: "bool option"
  citationPattern :: "string option"


section \<open>The spec integrity pass\<close>

subsection \<open>Helpers of the embedding\<close>

text \<open>
  Template literals print array indices in decimal; \<open>findIndex\<close> returns \<open>-1\<close> when no
  element matches. A JavaScript \<open>Set\<close> of strings is the list of its members in insertion
  order; \<open>setAdd\<close> is \<open>Set.prototype.add\<close> and membership is \<open>has\<close>. \<open>bindE\<close> sequences two
  steps of which the first may throw.
\<close>

fun showNat :: "nat \<Rightarrow> string" where
  "showNat n =
     (if n < 10 then [''0123456789'' ! n]
      else showNat (n div 10) @ [''0123456789'' ! (n mod 10)])"

declare showNat.simps [simp del]

definition showInt :: "int \<Rightarrow> string" where
  "showInt i = (if i < 0 then CHR ''-'' # showNat (nat (- i)) else showNat (nat i))"

fun findIndexFrom :: "int \<Rightarrow> ('a \<Rightarrow> bool) \<Rightarrow> 'a list \<Rightarrow> int" where
  "findIndexFrom i p [] = - 1"
| "findIndexFrom i p (x # xs) = (if p x then i else findIndexFrom (i + 1) p xs)"

definition findIndex :: "('a \<Rightarrow> bool) \<Rightarrow> 'a list \<Rightarrow> int" where
  "findIndex p xs = findIndexFrom 0 p xs"

definition setAdd :: "string list \<Rightarrow> string \<Rightarrow> string list" where
  "setAdd xs x = (if x \<in> set xs then xs else xs @ [x])"

fun bindE :: "'e + 'a \<Rightarrow> ('a \<Rightarrow> 'e + 'b) \<Rightarrow> 'e + 'b" where
  "bindE (Inl e) f = Inl e"
| "bindE (Inr x) f = f x"

text \<open>JavaScript truthiness of a JSON value (\<open>undefined\<close> is the absent property).\<close>

fun truthy :: "json \<Rightarrow> bool" where
  "truthy JNull = False"
| "truthy (JBool b) = b"
| "truthy (JNum n) = (n \<noteq> 0)"
| "truthy (JStr s) = (s \<noteq> [])"
| "truthy (JArr xs) = True"
| "truthy (JObj kvs) = True"

text \<open>\<open>set.has(v)\<close> for a set of strings and an arbitrary value: only a string can be a member.\<close>

fun setHasJson :: "string list \<Rightarrow> json \<Rightarrow> bool" where
  "setHasJson xs (JStr s) = (s \<in> set xs)"
| "setHasJson xs v = False"

definition mkIssue :: "IntegrityIssueSeverity \<Rightarrow> string \<Rightarrow> string \<Rightarrow> IntegrityIssue" where
  "mkIssue sev c p = \<lparr>issueSeverity = sev, code = c, path = p\<rparr>"

text \<open>
  Reads of properties that may be absent, as the source writes them: \<open>x ?? []\<close> for an
  array, \<open>ac.rule?.k\<close> for a property of the rule payload, and the guard
  \<open>!Array.isArray(x) || x.length === 0\<close>.
\<close>

definition orEmpty :: "'a list option \<Rightarrow> 'a list" where
  "orEmpty x = (case x of None \<Rightarrow> [] | Some xs \<Rightarrow> xs)"

definition ruleGet :: "AcceptanceCriterionSpec \<Rightarrow> string \<Rightarrow> json option" where
  "ruleGet ac k = (case rule ac of None \<Rightarrow> None | Some r \<Rightarrow> map_of r k)"

definition notArrayOrEmpty :: "'a list option \<Rightarrow> bool" where
  "notArrayOrEmpty x = (case x of None \<Rightarrow> True | Some xs \<Rightarrow> length xs = 0)"

text \<open>
  \<open>deepClone\<close> is \<open>JSON.parse(JSON.stringify(x))\<close>. The values of this model are immutable
  JSON trees (strings, booleans, rationals, arrays, objects, absent properties), which
  the round trip reproduces, so on values the clone is the identity.
\<close>

definition deepClone :: "'a \<Rightarrow> 'a" where
  "deepClone x = x"

subsection \<open>The checks, in source order\<close>

text \<open>
  What \<open>specIntegrityPass\<close> can throw: its own \<open>SpecIntegrityError\<close> with the issue list, or
  anything else (a \<open>TypeError\<close> from reading \<open>.length\<close> of an absent array).
\<close>

datatype failure = SpecIntegrityError "IntegrityIssue list" | Thrown exn

definition versionIssues :: "VCCSpec \<Rightarrow> IntegrityIssue list" where
  "versionIssues spec =
     (if vccVersion spec \<noteq> ''sdlaf.vcc/v1''
      then [mkIssue IssueError ''VERSION_UNSUPPORTED'' ''/vccVersion''] else [])"

definition normalizeArrays :: "VCCSpec \<Rightarrow> VCCSpec" where
  "normalizeArrays spec =
     spec\<lparr>relationships := Some (orEmpty (relationships spec)),
          rubrics := Some (orEmpty (rubrics spec)),
          gates := Some (orEmpty (gates spec))\<rparr>"

text \<open>
  The artifact loop. An artifact without an id is reported and skipped (\<open>continue\<close>).
  For the others the loop reports a repeated id, adds the id to \<open>artifactIdSet\<close>, reports
  \<open>formats\<close> that is no array or is empty, replaces a \<open>dependsOn\<close> that is no array by
  \<open>[]\<close> in the artifact itself, and warns about \<open>owners\<close> that is no array or is empty.
  The result is the artifact array as the loop leaves it, the set, and the issues pushed.
\<close>

definition repairDependsOn :: "ArtifactSpec \<Rightarrow> ArtifactSpec" where
  "repairDependsOn a = a\<lparr>dependsOn := Some (orEmpty (dependsOn a))\<rparr>"

definition artifactIssues :: "nat \<Rightarrow> ArtifactSpec \<Rightarrow> string list \<Rightarrow> IntegrityIssue list" where
  "artifactIssues i a artifactIdSet =
     (if artifactId a \<in> set artifactIdSet
      then [mkIssue IssueError ''ARTIFACT_ID_DUPLICATE''
              (''/artifacts/'' @ showNat i @ ''/artifactId'')]
      else [])
     @ (if notArrayOrEmpty (formats a)
        then [mkIssue IssueError ''ARTIFACT_FORMATS_EMPTY''
                (''/artifacts/'' @ showNat i @ ''/formats'')]
        else [])
     @ (if notArrayOrEmpty (owners a)
        then [mkIssue IssueWarning ''ARTIFACT_OWNERS_EMPTY''
                (''/artifacts/'' @ showNat i @ ''/owners'')]
        else [])"

fun artifactLoop ::
  "nat \<Rightarrow> ArtifactSpec list \<Rightarrow> string list \<Rightarrow>
   ArtifactSpec list \<times> string list \<times> IntegrityIssue list" where
  "artifactLoop i [] artifactIdSet = ([], artifactIdSet, [])"
| "artifactLoop i (a # rest) artifactIdSet =
     (if artifactId a = []
      then (case artifactLoop (i + 1) rest artifactIdSet of
              (rest', ids, iss) \<Rightarrow>
                (a # rest', ids,
                 mkIssue IssueError ''ARTIFACT_ID_MISSING''
                   (''/artifacts/'' @ showNat i @ ''/artifactId'') # iss))
      else (case artifactLoop (i + 1) rest (setAdd artifactIdSet (artifactId a)) of
              (rest', ids, iss) \<Rightarrow>
                (repairDependsOn a # rest', ids, artifactIssues i a artifactIdSet @ iss)))"

text \<open>The loop over \<open>(a.dependsOn ?? [])\<close> of every artifact.\<close>

definition dependsOnIssues :: "string list \<Rightarrow> ArtifactSpec list \<Rightarrow> IntegrityIssue list" where
  "dependsOnIssues artifactIdSet arts =
     concat (map (\<lambda>(i, a).
       concat (map (\<lambda>(j, dep).
         if dep \<in> set artifactIdSet then []
         else [mkIssue IssueError ''ARTIFACT_DEP_MISSING''
                 (''/artifacts/'' @ showNat i @ ''/dependsOn/'' @ showNat j)])
         (enumerate 0 (orEmpty (dependsOn a)))))
       (enumerate 0 arts))"

text \<open>
  The next loops read \<open>.length\<close> of \<open>spec.packaging\<close>, of each \<open>p.inputs\<close>, of
  \<open>spec.acceptance\<close>, of each \<open>ac.targetArtifacts\<close>, of each \<open>g.requiredApprovals\<close> and of
  each artifact's \<open>owners\<close> without a guard: on an absent array the read throws a
  \<open>TypeError\<close>, and the issues pushed so far are lost with the local array.
\<close>

definition lengthOfUndefined :: exn where
  "lengthOfUndefined = TypeError ''Cannot read properties of undefined (reading length)''"

fun packagingLoop :: "nat \<Rightarrow> PackagingSpec list \<Rightarrow> string list \<Rightarrow> exn + IntegrityIssue list" where
  "packagingLoop i [] artifactIdSet = Inr []"
| "packagingLoop i (p # rest) artifactIdSet =
     (case inputs p of
        None \<Rightarrow> Inl lengthOfUndefined
      | Some xs \<Rightarrow>
          bindE (packagingLoop (i + 1) rest artifactIdSet) (\<lambda>iss.
            Inr (concat (map (\<lambda>(j, x).
                   if x \<in> set artifactIdSet then []
                   else [mkIssue IssueError ''PACKAGING_INPUT_MISSING''
                           (''/packaging/'' @ showNat i @ ''/inputs/'' @ showNat j)])
                   (enumerate 0 xs))
                 @ iss)))"

definition packagingIssues ::
  "string list \<Rightarrow> PackagingSpec list option \<Rightarrow> exn + IntegrityIssue list" where
  "packagingIssues artifactIdSet pkgs =
     (case pkgs of
        None \<Rightarrow> Inl lengthOfUndefined
      | Some ps \<Rightarrow> packagingLoop 0 ps artifactIdSet)"

fun acceptanceLoop ::
  "nat \<Rightarrow> AcceptanceCriterionSpec list \<Rightarrow> string list \<Rightarrow> string list \<Rightarrow>
   exn + IntegrityIssue list" where
  "acceptanceLoop i [] artifactIdSet acIdSet = Inr []"
| "acceptanceLoop i (ac # rest) artifactIdSet acIdSet =
     (case targetArtifacts ac of
        None \<Rightarrow> Inl lengthOfUndefined
      | Some ts \<Rightarrow>
          bindE (acceptanceLoop (i + 1) rest artifactIdSet (setAdd acIdSet (acId ac))) (\<lambda>iss.
            Inr ((if acId ac \<in> set acIdSet
                  then [mkIssue IssueError ''AC_ID_DUPLICATE''
                          (''/acceptance/'' @ showNat i @ ''/acId'')]
                  else [])
                 @ concat (map (\<lambda>(j, t).
                     if t \<in> set artifactIdSet then []
                     else [mkIssue IssueError ''AC_TARGET_MISSING''
                             (''/acceptance/'' @ showNat i @ ''/targetArtifacts/'' @ showNat j)])
                     (enumerate 0 ts))
                 @ iss)))"

definition acceptanceIssues ::
  "string list \<Rightarrow> AcceptanceCriterionSpec list option \<Rightarrow> exn + IntegrityIssue list" where
  "acceptanceIssues artifactIdSet acs =
     (case acs of
        None \<Rightarrow> Inl lengthOfUndefined
      | Some cs \<Rightarrow> acceptanceLoop 0 cs artifactIdSet [])"

definition rubricRefIssues ::
  "string list \<Rightarrow> AcceptanceCriterionSpec list \<Rightarrow> IntegrityIssue list" where
  "rubricRefIssues rubricSet acs =
     concat (map (\<lambda>(i, ac).
       (case ruleGet ac ''rubricRef'' of
          None \<Rightarrow> []
        | Some rubricRef \<Rightarrow>
            if truthy rubricRef \<and> \<not> setHasJson rubricSet rubricRef
            then [mkIssue IssueError ''RUBRIC_REF_MISSING''
                    (''/acceptance/'' @ showNat i @ ''/rule/rubricRef'')]
            else []))
       (enumerate 0 acs))"

fun gateLoop :: "nat \<Rightarrow> GateSpec list \<Rightarrow> string list \<Rightarrow> exn + IntegrityIssue list" where
  "gateLoop i [] rubricSet = Inr []"
| "gateLoop i (g # rest) rubricSet =
     (case requiredApprovals g of
        None \<Rightarrow> Inl lengthOfUndefined
      | Some ras \<Rightarrow>
          bindE (gateLoop (i + 1) rest rubricSet) (\<lambda>iss.
            Inr (concat (map (\<lambda>(j, ra).
                   (case approvalRubricId ra of
                      None \<Rightarrow> []
                    | Some rid \<Rightarrow>
                        if rid \<noteq> [] \<and> rid \<notin> set rubricSet
                        then [mkIssue IssueError ''GATE_RUBRIC_REF_MISSING''
                                (''/gates/'' @ showNat i @ ''/requiredApprovals/'' @ showNat j
                                 @ ''/rubricId'')]
                        else []))
                   (enumerate 0 ras))
                 @ iss)))"

fun teamLoop :: "nat \<Rightarrow> ArtifactSpec list \<Rightarrow> string list \<Rightarrow> exn + IntegrityIssue list" where
  "teamLoop i [] teamRoles = Inr []"
| "teamLoop i (a # rest) teamRoles =
     (case owners a of
        None \<Rightarrow> Inl lengthOfUndefined
      | Some os \<Rightarrow>
          bindE (teamLoop (i + 1) rest teamRoles) (\<lambda>iss.
            Inr (concat (map (\<lambda>(j, owner).
                   if teamRoles \<noteq> [] \<and> owner \<notin> set teamRoles
                   then [mkIssue IssueWarning ''ROLE_NOT_IN_TEAM''
                           (''/artifacts/'' @ showNat i @ ''/owners/'' @ showNat j)]
                   else [])
                   (enumerate 0 os))
                 @ iss)))"

definition teamIssues :: "TeamMember list \<Rightarrow> ArtifactSpec list \<Rightarrow> exn + IntegrityIssue list" where
  "teamIssues tm arts = teamLoop 0 arts (map role tm)"

subsection \<open>Injection of the universal defaults\<close>

text \<open>
  \<open>toLowerCase\<close> acts on the ASCII letters, which is all the substring tests below can
  observe.
\<close>

definition toLowerChar :: "char \<Rightarrow> char" where
  "toLowerChar c =
     (let n = of_char c :: nat in if 65 \<le> n \<and> n \<le> 90 then char_of (n + 32) else c)"

definition toLowerCase :: "string \<Rightarrow> string" where
  "toLowerCase s = map toLowerChar s"

fun startsWith :: "string \<Rightarrow> string \<Rightarrow> bool" where
  "startsWith s [] = True"
| "startsWith [] (p # ps) = False"
| "startsWith (c # cs) (p # ps) = (c = p \<and> startsWith cs ps)"

fun strIncludes :: "string \<Rightarrow> string \<Rightarrow> bool" where
  "strIncludes [] sub = (sub = [])"
| "strIncludes (c # cs) sub = (startsWith (c # cs) sub \<or> strIncludes cs sub)"

definition rubricsOf :: "VCCSpec \<Rightarrow> RubricSpec list" where
  "rubricsOf spec = orEmpty (rubrics spec)"

definition gatesOf :: "VCCSpec \<Rightarrow> GateSpec list" where
  "gatesOf spec = orEmpty (gates spec)"

definition acceptanceOf :: "VCCSpec \<Rightarrow> AcceptanceCriterionSpec list" where
  "acceptanceOf spec = orEmpty (acceptance spec)"

definition rubricOverall :: RubricSpec where
  "rubricOverall =
     \<lparr>rubricId = ''RUBRIC-OVERALL-v1'',
      scale = [1, 2, 3, 4, 5],
      anchors = [(''1'', ''Incorrect/incomplete; fails core requirements''),
                 (''3'', ''Mostly correct; notable gaps or rough edges''),
                 (''5'', ''Polished; correct; consistent; ready for delivery'')],
      passThreshold = 4\<rparr>"

definition rubricClarity :: RubricSpec where
  "rubricClarity =
     \<lparr>rubricId = ''RUBRIC-CLARITY-v1'',
      scale = [1, 2, 3, 4, 5],
      anchors = [(''1'', ''Hard to follow; ambiguous; missing context''),
                 (''3'', ''Understandable; some ambiguities''),
                 (''5'', ''Clear, structured, and actionable'')],
      passThreshold = 4\<rparr>"

definition injectDefaultRubrics :: "VCCSpec \<Rightarrow> VCCSpec" where
  "injectDefaultRubrics spec =
     (let rs = rubricsOf spec;
          existing = map rubricId rs;
          rs1 = (if ''RUBRIC-OVERALL-v1'' \<in> set existing then rs else rs @ [rubricOverall]);
          rs2 = (if ''RUBRIC-CLARITY-v1'' \<in> set existing then rs1 else rs1 @ [rubricClarity])
      in spec\<lparr>rubrics := Some rs2\<rparr>)"

text \<open>
  \<open>spec.artifacts[0].artifactId\<close> throws a \<open>TypeError\<close> on an empty array.
\<close>

definition firstArtifactId :: "VCCSpec \<Rightarrow> exn + string" where
  "firstArtifactId spec =
     (case artifacts spec of
        [] \<Rightarrow> Inl (TypeError ''Cannot read properties of undefined (reading artifactId)'')
      | a # rest \<Rightarrow> Inr (artifactId a))"

definition looksLikeSpec :: "ArtifactSpec \<Rightarrow> bool" where
  "looksLikeSpec a =
     (let k = toLowerCase (kind a);
          st = toLowerCase (case subtype a of None \<Rightarrow> [] | Some x \<Rightarrow> x)
      in strIncludes k ''spec'' \<or> strIncludes st ''requirements'' \<or> strIncludes st ''protocol'')"

definition findLikelySpecArtifacts :: "VCCSpec \<Rightarrow> exn + string list" where
  "findLikelySpecArtifacts spec =
     (case filter required (artifacts spec) of
        [] \<Rightarrow> bindE (firstArtifactId spec) (\<lambda>x. Inr [x])
      | r0 # rs \<Rightarrow>
          (let ids = map artifactId (filter looksLikeSpec (r0 # rs))
           in Inr (if length ids > 0 then ids else [artifactId r0])))"

definition isNarrativeFormat :: "Format \<Rightarrow> bool" where
  "isNarrativeFormat f = (startsWith (mediaType f) ''text/'' \<or> strIncludes (mediaType f) ''markdown'')"

text \<open>
  \<open>required.filter(a => a.formats.some(...))\<close> calls \<open>some\<close> on the \<open>formats\<close> of every
  required artifact, in order, and throws a \<open>TypeError\<close> at the first that has none.
\<close>

definition findNarrativeArtifacts :: "VCCSpec \<Rightarrow> exn + string list" where
  "findNarrativeArtifacts spec =
     (case filter required (artifacts spec) of
        [] \<Rightarrow> bindE (firstArtifactId spec) (\<lambda>x. Inr [x])
      | r0 # rs \<Rightarrow>
          (if list_ex (\<lambda>a. formats a = None) (r0 # rs)
           then Inl (TypeError ''Cannot read properties of undefined (reading some)'')
           else
             (let ids = map artifactId
                          (filter (\<lambda>a. list_ex isNarrativeFormat (orEmpty (formats a))) (r0 # rs))
              in Inr (if length ids > 0 then ids else map artifactId (r0 # rs)))))"

text \<open>
  \<open>spec.packaging.flatMap(p => p.inputs)\<close> and \<open>spec.provenancePolicy.require\<close>: each
  throws a \<open>TypeError\<close> when the object before the last dot is absent. A packaging step
  without \<open>inputs\<close> would put \<open>undefined\<close> into the flattened array; \<open>specIntegrityPass\<close>
  has thrown on such a step before it injects, so here the step contributes nothing.
\<close>

definition packagingInputs :: "VCCSpec \<Rightarrow> exn + string list" where
  "packagingInputs spec =
     (case packaging spec of
        None \<Rightarrow> Inl (TypeError ''Cannot read properties of undefined (reading flatMap)'')
      | Some ps \<Rightarrow> Inr (concat (map (\<lambda>p. orEmpty (inputs p)) ps)))"

definition policyRequire :: "VCCSpec \<Rightarrow> exn + string list option" where
  "policyRequire spec =
     (case provenancePolicy spec of
        None \<Rightarrow> Inl (TypeError ''Cannot read properties of undefined (reading require)'')
      | Some pp \<Rightarrow> Inr (require pp))"

text \<open>
  The source of the default citation pattern, the regular expression for a markdown link,
  and the double that the literal \<open>0.6\<close> denotes.
\<close>

definition defaultCitationPattern :: string where
  "defaultCitationPattern =
     [CHR 0x5C] @ ''[[^'' @ [CHR 0x5C] @ '']]+'' @ [CHR 0x5C] @ '']'' @ [CHR 0x5C] @ ''(([^)]+)''
       @ [CHR 0x5C] @ '')''"

definition zeroPointSix :: rat where
  "zeroPointSix = 5404319552844595 / 9007199254740992"

definition acUnivStruct :: "string list \<Rightarrow> AcceptanceCriterionSpec" where
  "acUnivStruct targets =
     \<lparr>acId = ''AC-UNIV-STRUCT-1'',
      targetArtifacts = Some targets,
      acType = AcStructure,
      severity = Must,
      rule = Some [(''requiredSections'',
                    JArr [JStr ''Scope'', JStr ''Assumptions'', JStr ''Risks'',
                          JStr ''Acceptance Criteria''])],
      evidence = Some \<lparr>evRequired = True, evidenceType = Auto,
                       producedArtifact = Some ''E-AC-UNIV-STRUCT-1''\<rparr>\<rparr>"

definition acUnivTrace :: "string list \<Rightarrow> string option \<Rightarrow> AcceptanceCriterionSpec" where
  "acUnivTrace targets pattern =
     \<lparr>acId = ''AC-UNIV-TRACE-1'',
      targetArtifacts = Some targets,
      acType = AcTraceability,
      severity = Should,
      rule = Some [(''description'',
                    JStr (''Key claims should be backed by citations or explicit '' @ [CHR 0x27]
                          @ ''UNSOURCED/INFERENCE'' @ [CHR 0x27] @ '' labels.'')),
                   (''minCitationCoverage'', JNum zeroPointSix),
                   (''citationPattern'',
                    JStr (case pattern of None \<Rightarrow> defaultCitationPattern | Some p \<Rightarrow> p))],
      evidence = Some \<lparr>evRequired = True, evidenceType = Auto,
                       producedArtifact = Some ''E-AC-UNIV-TRACE-1''\<rparr>\<rparr>"

definition acUnivConsist :: "string list \<Rightarrow> AcceptanceCriterionSpec" where
  "acUnivConsist targets =
     \<lparr>acId = ''AC-UNIV-CONSIST-1'',
      targetArtifacts = Some targets,
      acType = AcConsistency,
      severity = Should,
      rule = Some [(''description'',
                    JStr ''Artifacts should not contradict each other on defined scope and decisions.'')],
      evidence = Some \<lparr>evRequired = True, evidenceType = AiJudged,
                       producedArtifact = Some ''E-AC-UNIV-CONSIST-1''\<rparr>\<rparr>"

text \<open>
  \<open>rule: { require: spec.provenancePolicy.require }\<close>: when the policy has no \<open>require\<close>
  the property holds \<open>undefined\<close>, which reads like a property that is not there.
\<close>

definition acUnivProv :: "string list \<Rightarrow> string list option \<Rightarrow> AcceptanceCriterionSpec" where
  "acUnivProv targets req =
     \<lparr>acId = ''AC-UNIV-PROV-1'',
      targetArtifacts = Some targets,
      acType = AcProvenance,
      severity = Must,
      rule = Some (case req of None \<Rightarrow> [] | Some r \<Rightarrow> [(''require'', JArr (map JStr r))]),
      evidence = Some \<lparr>evRequired = True, evidenceType = Auto,
                       producedArtifact = Some ''E-AC-UNIV-PROV-1''\<rparr>\<rparr>"

text \<open>
  \<open>existing\<close> is computed once, before any push; each default is appended when its id is
  not in it. A throw in the construction of a default leaves the function at once.
\<close>

definition injectDefaultAcceptance :: "VCCSpec \<Rightarrow> string option \<Rightarrow> exn + VCCSpec" where
  "injectDefaultAcceptance spec pattern =
     (case acceptance spec of
        None \<Rightarrow> Inl (TypeError ''Cannot read properties of undefined (reading map)'')
      | Some acc \<Rightarrow>
          (let existing = map acId acc in
           bindE (if ''AC-UNIV-STRUCT-1'' \<in> set existing then Inr acc
                  else bindE (findLikelySpecArtifacts spec) (\<lambda>targets.
                         Inr (acc @ [acUnivStruct targets]))) (\<lambda>acc1.
           bindE (if ''AC-UNIV-TRACE-1'' \<in> set existing then Inr acc1
                  else bindE (findNarrativeArtifacts spec) (\<lambda>targets.
                         Inr (acc1 @ [acUnivTrace targets pattern]))) (\<lambda>acc2.
           bindE (Inr (if ''AC-UNIV-CONSIST-1'' \<in> set existing then acc2
                       else acc2 @ [acUnivConsist
                                      (map artifactId (filter required (artifacts spec)))])) (\<lambda>acc3.
           bindE (if ''AC-UNIV-PROV-1'' \<in> set existing then Inr acc3
                  else bindE (packagingInputs spec) (\<lambda>targets.
                       bindE (policyRequire spec) (\<lambda>req.
                         Inr (acc3 @ [acUnivProv targets req])))) (\<lambda>acc4.
             Inr (spec\<lparr>acceptance := Some acc4\<rparr>)))))))"

subsection \<open>MUST coverage and the pass itself\<close>

definition explicitAdapter :: "AcceptanceCriterionSpec \<Rightarrow> string option" where
  "explicitAdapter ac =
     (case ruleGet ac ''adapter'' of Some (JStr a) \<Rightarrow> Some a | _ \<Rightarrow> None)"

text \<open>The loop over the candidates: the first that accepts ends it; a throw is ignored.\<close>

fun canAnyLoop ::
  "'st ValidatorAdapter list \<Rightarrow> AcceptanceCriterionSpec \<Rightarrow> VCCSpec \<Rightarrow> 'st RunContext \<Rightarrow> bool" where
  "canAnyLoop [] ac spec ctx = False"
| "canAnyLoop (v # vs) ac spec ctx =
     (case canValidate v ac spec ctx of
        Some True \<Rightarrow> True
      | _ \<Rightarrow> canAnyLoop vs ac spec ctx)"

definition acIndexPath :: "VCCSpec \<Rightarrow> AcceptanceCriterionSpec \<Rightarrow> string" where
  "acIndexPath spec ac =
     ''/acceptance/'' @ showInt (findIndex (\<lambda>x. acId x = acId ac) (acceptanceOf spec))"

definition candidatesFor ::
  "'st AdapterRegistry \<Rightarrow> AcceptanceCriterionSpec \<Rightarrow> 'st ValidatorAdapter list" where
  "candidatesFor registry ac =
     filter (\<lambda>v. acType ac \<in> set (supportedTypes v)) (validators registry)"

definition typeCoverageIssues ::
  "'st AdapterRegistry \<Rightarrow> VCCSpec \<Rightarrow> 'st RunContext \<Rightarrow> AcceptanceCriterionSpec \<Rightarrow>
   IntegrityIssue list" where
  "typeCoverageIssues registry spec ctx ac =
     (let candidates = candidatesFor registry ac
      in if length candidates = 0
         then [mkIssue IssueError ''NO_VALIDATOR_FOR_TYPE'' (acIndexPath spec ac @ ''/type'')]
         else if \<not> canAnyLoop candidates ac spec ctx
              then [mkIssue IssueError ''UNVERIFIABLE_MUST'' (acIndexPath spec ac)]
              else [])"

text \<open>
  The body of the loop over the MUST criteria. \<open>if (explicitAdapter)\<close> is a truthiness
  test: an adapter named by the empty string counts as not named.
\<close>

definition coverageIssues ::
  "'st AdapterRegistry \<Rightarrow> VCCSpec \<Rightarrow> 'st RunContext \<Rightarrow> AcceptanceCriterionSpec \<Rightarrow>
   IntegrityIssue list" where
  "coverageIssues registry spec ctx ac =
     (case explicitAdapter ac of
        Some a \<Rightarrow>
          (if a \<noteq> []
           then (if list_ex (\<lambda>v. validatorId v = a) (validators registry) then []
                 else [mkIssue IssueError ''EXPLICIT_VALIDATOR_MISSING''
                         (acIndexPath spec ac @ ''/rule/adapter'')])
           else typeCoverageIssues registry spec ctx ac)
      | None \<Rightarrow> typeCoverageIssues registry spec ctx ac)"

text \<open>
  \<open>spec.acceptance\<close> is an array when the pass gets here: the acceptance check has read
  its length.
\<close>

definition mustCoverageIssues ::
  "'st AdapterRegistry \<Rightarrow> VCCSpec \<Rightarrow> 'st RunContext \<Rightarrow> IntegrityIssue list" where
  "mustCoverageIssues registry spec ctx =
     concat (map (coverageIssues registry spec ctx)
               (filter (\<lambda>a. severity a = Must) (acceptanceOf spec)))"

text \<open>
  The part of the pass between the test for an empty artifact list and the injection: the
  version check, the defaulting of the three optional arrays, and the structural checks
  in source order. It yields the contract as these statements leave it, the members of
  \<open>artifactIdSet\<close> and the issues pushed, or the \<open>TypeError\<close> one of the checks throws.
\<close>

definition structuralChecks ::
  "VCCSpec \<Rightarrow> 'st RunContext \<Rightarrow> exn + (VCCSpec \<times> string list \<times> IntegrityIssue list)" where
  "structuralChecks spec0 ctx =
     (let iss0 = versionIssues spec0;
          spec1 = normalizeArrays spec0
      in case artifactLoop 0 (artifacts spec1) [] of
           (arts, artifactIdSet, iss1) \<Rightarrow>
             (let spec = spec1\<lparr>artifacts := arts\<rparr>;
                  iss2 = dependsOnIssues artifactIdSet arts
              in bindE (packagingIssues artifactIdSet (packaging spec)) (\<lambda>iss3.
                 bindE (acceptanceIssues artifactIdSet (acceptance spec)) (\<lambda>iss4.
                   (let rubricSet = map rubricId (rubricsOf spec);
                        iss5 = rubricRefIssues rubricSet (acceptanceOf spec)
                    in bindE (gateLoop 0 (gatesOf spec) rubricSet) (\<lambda>iss6.
                       bindE (teamIssues (team ctx) arts) (\<lambda>iss7.
                         Inr (spec, artifactIdSet,
                              iss0 @ iss1 @ iss2 @ iss3 @ iss4 @ iss5 @ iss6 @ iss7))))))))"

definition optInject :: "IntegrityOptions option \<Rightarrow> bool" where
  "optInject opts =
     (case opts of None \<Rightarrow> True
      | Some op \<Rightarrow> (case injectUniversalDefaults op of None \<Rightarrow> True | Some b \<Rightarrow> b))"

definition optRequireMustCoverage :: "IntegrityOptions option \<Rightarrow> bool" where
  "optRequireMustCoverage opts =
     (case opts of None \<Rightarrow> True
      | Some op \<Rightarrow> (case requireMustCoverage op of None \<Rightarrow> True | Some b \<Rightarrow> b))"

definition optCitationPattern :: "IntegrityOptions option \<Rightarrow> string option" where
  "optCitationPattern opts = (case opts of None \<Rightarrow> None | Some op \<Rightarrow> citationPattern op)"

definition injectDefaults :: "IntegrityOptions option \<Rightarrow> VCCSpec \<Rightarrow> exn + VCCSpec" where
  "injectDefaults opts spec =
     (if optInject opts
      then injectDefaultAcceptance (injectDefaultRubrics spec) (optCitationPattern opts)
      else Inr spec)"

definition specIntegrityPass ::
  "VCCSpec \<Rightarrow> 'st RunContext \<Rightarrow> 'st AdapterRegistry \<Rightarrow> IntegrityOptions option \<Rightarrow>
   failure + IntegrityResult" where
  "specIntegrityPass inputSpec ctx registry opts =
     (let spec0 = deepClone inputSpec in
      if artifacts spec0 = []
      then Inl (SpecIntegrityError [mkIssue IssueError ''ARTIFACTS_EMPTY'' ''/artifacts''])
      else
        (case structuralChecks spec0 ctx of
           Inl e \<Rightarrow> Inl (Thrown e)
         | Inr (spec1, artifactIdSet, iss7) \<Rightarrow>
             (case injectDefaults opts spec1 of
                Inl e \<Rightarrow> Inl (Thrown e)
              | Inr spec \<Rightarrow>
                  (let mustIds = map acId (filter (\<lambda>a. severity a = Must) (acceptanceOf spec));
                       iss8 = iss7 @ (if optRequireMustCoverage opts
                                      then mustCoverageIssues registry spec ctx else []);
                       errors = filter (\<lambda>i. issueSeverity i = IssueError) iss8
                   in if length errors > 0
                      then Inl (SpecIntegrityError iss8)
                      else Inr \<lparr>resultSpec = spec, issues = iss8,
                               normalized = \<lparr>artifactIds = artifactIdSet, mustACs = mustIds\<rparr>\<rparr>))))"

text \<open>
  The adapter a criterion names, as the coverage loop reads it: a string under \<open>adapter\<close>
  that is not empty.
\<close>

definition namedAdapter :: "AcceptanceCriterionSpec \<Rightarrow> string option" where
  "namedAdapter ac =
     (case explicitAdapter ac of Some a \<Rightarrow> if a \<noteq> [] then Some a else None | None \<Rightarrow> None)"

definition hasError :: "IntegrityIssue list \<Rightarrow> bool" where
  "hasError iss = list_ex (\<lambda>i. issueSeverity i = IssueError) iss"



section \<open>The universal validators\<close>

subsection \<open>What the JavaScript runtime supplies\<close>

text \<open>
  Conversions, floating-point division and the regular-expression engine are built into
  the runtime; they are parameters. \<open>numDivide\<close> is the division of two doubles, which
  rounds the quotient. So are the helpers of the source whose whole body is
  regular-expression matching (\<open>hasSection\<close> and the four text helpers of the consistency
  check) and \<open>trimTo\<close>, which counts UTF-16 code units: the engine is not modelled, and
  nothing proved below depends on what they return.
  \<open>newRegExp\<close> is \<open>new RegExp(source, "g")\<close>, which throws on a malformed source; the
  function it yields is \<open>test\<close> followed by the reset of \<open>lastIndex\<close>.
\<close>

record JsRuntime =
  toStr :: "json \<Rightarrow> string"
  toFixed :: "rat \<Rightarrow> nat \<Rightarrow> string"
  toNumber :: "json \<Rightarrow> rat option"
  jsonStringify :: "json \<Rightarrow> string"
  newRegExp :: "string \<Rightarrow> exn + (string \<Rightarrow> bool)"
  numDivide :: "rat \<Rightarrow> rat \<Rightarrow> rat"
  trimTo :: "string \<Rightarrow> nat \<Rightarrow> string"
  hasSection :: "string \<Rightarrow> string \<Rightarrow> bool"
  extractListUnderHeadings :: "string \<Rightarrow> string list \<Rightarrow> string list"
  mentionsAsInScope :: "string \<Rightarrow> string \<Rightarrow> bool"
  extractMustStatements :: "string \<Rightarrow> string list"
  negates :: "string \<Rightarrow> string \<Rightarrow> bool"

fun joinWith :: "string \<Rightarrow> string list \<Rightarrow> string" where
  "joinWith sep [] = []"
| "joinWith sep [x] = x"
| "joinWith sep (x # y # ys) = x @ sep @ joinWith sep (y # ys)"

text \<open>\<open>Array.prototype.join\<close> prints \<open>null\<close> as the empty string, other values as \<open>String\<close> does.\<close>

definition joinJson :: "JsRuntime \<Rightarrow> string \<Rightarrow> json list \<Rightarrow> string" where
  "joinJson rt sep xs =
     joinWith sep (map (\<lambda>x. case x of JNull \<Rightarrow> [] | JStr t \<Rightarrow> t | _ \<Rightarrow> toStr rt x) xs)"

text \<open>The string a value turns into when it is used as a property key or in a template.\<close>

definition propertyKey :: "JsRuntime \<Rightarrow> json \<Rightarrow> string" where
  "propertyKey rt v = (case v of JStr t \<Rightarrow> t | _ \<Rightarrow> toStr rt v)"

definition templateStr :: "JsRuntime \<Rightarrow> json option \<Rightarrow> string" where
  "templateStr rt v = (case v of None \<Rightarrow> ''undefined'' | Some x \<Rightarrow> propertyKey rt x)"

text \<open>
  Assignment \<open>obj[k] = v\<close> on an object literal, as far as \<open>Object.keys\<close> sees it: the key
  \<open>__proto__\<close> reaches the setter inherited from \<open>Object.prototype\<close> and adds no own
  property. \<open>Object.keys\<close> lists array indices first, ascending, then the other keys in
  insertion order.
\<close>

definition objSet :: "(string \<times> 'v) list \<Rightarrow> string \<Rightarrow> 'v \<Rightarrow> (string \<times> 'v) list" where
  "objSet obj k v = (if k = ''__proto__'' then obj else AList.update k v obj)"

definition isDigit :: "char \<Rightarrow> bool" where
  "isDigit c = (let n = of_char c :: nat in 48 \<le> n \<and> n \<le> 57)"

definition parseNat :: "string \<Rightarrow> nat" where
  "parseNat ds = foldl (\<lambda>acc c. 10 * acc + (of_char c - 48)) 0 ds"

definition isArrayIndex :: "string \<Rightarrow> bool" where
  "isArrayIndex k =
     (k \<noteq> [] \<and> list_all isDigit k \<and> (k = ''0'' \<or> hd k \<noteq> CHR ''0'') \<and> parseNat k < 4294967295)"

definition objectKeys :: "(string \<times> 'v) list \<Rightarrow> string list" where
  "objectKeys obj =
     sort_key parseNat (filter isArrayIndex (map fst obj)) @
     filter (\<lambda>k. \<not> isArrayIndex k) (map fst obj)"

subsection \<open>Reading artifacts and writing evidence\<close>

definition storeRead :: "'st RunContext \<Rightarrow> string \<Rightarrow> exn + string" where
  "storeRead ctx u = readText (ctxArtifacts ctx) (storeState (ctxArtifacts ctx)) u"

text \<open>
  \<open>a.formats.find(...) ?? a.formats[0]\<close>, then \<open>best.uri\<close>: an artifact without
  \<open>formats\<close> throws at \<open>find\<close>, one with an empty array at \<open>uri\<close>.
\<close>

definition readArtifactText :: "VCCSpec \<Rightarrow> 'st RunContext \<Rightarrow> string \<Rightarrow> exn + string" where
  "readArtifactText spec ctx aid =
     (case find (\<lambda>x. artifactId x = aid) (artifacts spec) of
        None \<Rightarrow> Inl (ArtifactNotFound aid)
      | Some a \<Rightarrow>
          (case formats a of
             None \<Rightarrow> Inl (TypeError ''Cannot read properties of undefined (reading find)'')
           | Some fs \<Rightarrow>
               (case find (\<lambda>f. startsWith (mediaType f) ''text/'') fs of
                  Some best \<Rightarrow> storeRead ctx (uri best)
                | None \<Rightarrow>
                    (case fs of
                       [] \<Rightarrow> Inl (TypeError ''Cannot read properties of undefined (reading uri)'')
                     | best # rest \<Rightarrow> storeRead ctx (uri best)))))"

record EvidenceRef =
  evUri :: string
  evSha256 :: string

definition writeEvidence ::
  "'st RunContext \<Rightarrow> string \<Rightarrow> string \<Rightarrow> exn + (EvidenceRef \<times> 'st RunContext)" where
  "writeEvidence ctx evidenceUri contents =
     (let store = ctxArtifacts ctx in
      bindE (writeText store (storeState store) evidenceUri contents) (\<lambda>st'.
      bindE (hash store st' evidenceUri) (\<lambda>digest.
        Inr (\<lparr>evUri = evidenceUri, evSha256 = digest\<rparr>,
             ctx\<lparr>ctxArtifacts := store\<lparr>storeState := st'\<rparr>\<rparr>))))"

definition evidenceUriFor :: "string \<Rightarrow> string" where
  "evidenceUriFor a = ''sdlaf-exports/evidence/'' @ a @ ''.txt''"

definition mkResult ::
  "AcceptanceCriterionSpec \<Rightarrow> Status \<Rightarrow> string \<Rightarrow> EvidenceType \<Rightarrow> EvidenceRef \<Rightarrow>
   ValidationResult" where
  "mkResult ac st summ et ev =
     \<lparr>resAcId = acId ac, status = st, resSeverity = severity ac, resSummary = summ,
      resEvidence = Some \<lparr>resEvidenceType = et, resUri = Some (evUri ev),
                          sha256Digest = Some (evSha256 ev)\<rparr>\<rparr>"

text \<open>
  \<open>safeReadText(ctx, uri)\<close> calls \<open>readArtifactText(ctx, uri)\<close>, whose parameters are
  \<open>(spec, ctx, artifactId)\<close>: the run context stands where the contract is expected and
  the uri where the context is. \<open>spec.artifacts.find\<close> is then looked up on the artifact
  store, which declares no such method, and the call throws a \<open>TypeError\<close>; were there
  one, \<open>ctx.artifacts.readText\<close> would be read from a string and throw all the same. So
  the call throws before anything is read, and the \<open>catch\<close> block runs. Its first
  statement evaluates the template literal \<open>evidence://read-failure/${sha256Hex(uri)}.txt\<close>
  as an argument, before \<open>writeEvidence\<close> is called; \<open>sha256Hex\<close> is declared nowhere in
  the module, so the evaluation throws a \<open>ReferenceError\<close> out of \<open>safeReadText\<close>, and
  nothing is written.
\<close>

definition readArtifactTextShifted :: "'st RunContext \<Rightarrow> string \<Rightarrow> exn + string" where
  "readArtifactTextShifted ctx u = Inl (TypeError ''spec.artifacts.find is not a function'')"

definition safeReadText :: "'st RunContext \<Rightarrow> string \<Rightarrow> exn + (string \<times> 'st RunContext)" where
  "safeReadText ctx u =
     (case readArtifactTextShifted ctx u of
        Inr text \<Rightarrow> Inr (text, ctx)
      | Inl e \<Rightarrow> Inl (ReferenceError ''sha256Hex is not defined''))"

subsection \<open>Validator: structure, required sections\<close>

text \<open>
  \<open>(ac.rule.requiredSections as string[]) ?? []\<close> throws when the criterion has no rule
  and otherwise keeps whatever value the rule holds, unless that is absent or \<open>null\<close>.
  The cast checks nothing. The value is used twice: \<open>filter\<close> is called on it once per
  target, and calls \<open>hasSection\<close>, hence \<open>replace\<close>, on its elements in turn; \<open>join\<close> is
  called on it for the evidence text. Either method exists on arrays only, and \<open>replace\<close>
  on strings only.
\<close>

definition requiredSectionsOf :: "AcceptanceCriterionSpec \<Rightarrow> exn + json" where
  "requiredSectionsOf ac =
     (case rule ac of
        None \<Rightarrow> Inl (TypeError ''Cannot read properties of undefined (reading requiredSections)'')
      | Some r \<Rightarrow>
          (case map_of r ''requiredSections'' of
             None \<Rightarrow> Inr (JArr [])
           | Some JNull \<Rightarrow> Inr (JArr [])
           | Some v \<Rightarrow> Inr v))"

fun notFoundLoop :: "JsRuntime \<Rightarrow> string \<Rightarrow> json list \<Rightarrow> exn + json list" where
  "notFoundLoop rt text [] = Inr []"
| "notFoundLoop rt text (s # rest) =
     (case s of
        JStr sectionTitle \<Rightarrow>
          bindE (notFoundLoop rt text rest) (\<lambda>nf.
            Inr (if hasSection rt text sectionTitle then nf else s # nf))
      | JNull \<Rightarrow> Inl (TypeError ''Cannot read properties of null (reading replace)'')
      | _ \<Rightarrow> Inl (TypeError ''sectionTitle.replace is not a function''))"

definition notFoundSections :: "JsRuntime \<Rightarrow> string \<Rightarrow> json \<Rightarrow> exn + json list" where
  "notFoundSections rt text requiredSections =
     (case requiredSections of
        JArr xs \<Rightarrow> notFoundLoop rt text xs
      | _ \<Rightarrow> Inl (TypeError ''requiredSections.filter is not a function''))"

definition joinSections :: "JsRuntime \<Rightarrow> json \<Rightarrow> exn + string" where
  "joinSections rt requiredSections =
     (case requiredSections of
        JArr xs \<Rightarrow> Inr (joinJson rt '', '' xs)
      | _ \<Rightarrow> Inl (TypeError ''requiredSections.join is not a function''))"

definition structureCanValidate :: "AcceptanceCriterionSpec \<Rightarrow> bool option" where
  "structureCanValidate ac =
     (case ruleGet ac ''requiredSections'' of
        Some (JArr xs) \<Rightarrow> Some (length xs > 0)
      | _ \<Rightarrow> Some False)"

fun missingLoop ::
  "JsRuntime \<Rightarrow> VCCSpec \<Rightarrow> 'st RunContext \<Rightarrow> string list \<Rightarrow> json \<Rightarrow>
   (string \<times> json list) list \<Rightarrow> exn + (string \<times> json list) list" where
  "missingLoop rt spec ctx [] requiredSections missing = Inr missing"
| "missingLoop rt spec ctx (aid # rest) requiredSections missing =
     bindE (readArtifactText spec ctx aid) (\<lambda>text.
     bindE (notFoundSections rt text requiredSections) (\<lambda>notFound.
       missingLoop rt spec ctx rest requiredSections
         (if length notFound > 0 then objSet missing aid notFound else missing)))"

definition structureValidate ::
  "JsRuntime \<Rightarrow> AcceptanceCriterionSpec \<Rightarrow> VCCSpec \<Rightarrow> 'st RunContext \<Rightarrow>
   exn + (ValidationResult \<times> 'st RunContext)" where
  "structureValidate rt ac spec ctx =
     bindE (requiredSectionsOf ac) (\<lambda>requiredSections.
     bindE (missingLoop rt spec ctx (orEmpty (targetArtifacts ac)) requiredSections [])
       (\<lambda>missing.
     bindE (joinSections rt requiredSections) (\<lambda>joined.
       (let pass = (length (objectKeys missing) = 0);
            evidenceText =
              (if pass
               then ''PASS: All required sections present.'' @ [CHR 0x0A] @ ''Required: ''
                      @ joined
               else ''FAIL: Missing required sections.'' @ [CHR 0x0A] @ ''Required: ''
                      @ joined @ [CHR 0x0A] @ ''Missing:'' @ [CHR 0x0A]
                      @ jsonStringify rt (JObj (map (\<lambda>(k, v). (k, JArr v)) missing)))
        in bindE (writeEvidence ctx (evidenceUriFor (acId ac)) evidenceText) (\<lambda>(ev, ctx').
             Inr (mkResult ac (if pass then Pass else Fail)
                    (if pass then ''All required sections present.''
                     else ''One or more required sections are missing.'')
                    Auto ev, ctx'))))))"

definition structureRequiredSections :: "JsRuntime \<Rightarrow> 'st ValidatorAdapter" where
  "structureRequiredSections rt =
     \<lparr>validatorId = ''structure.requiredSections'',
      supportedTypes = [AcStructure],
      canValidate = (\<lambda>ac spec ctx. structureCanValidate ac),
      validate = structureValidate rt\<rparr>"

subsection \<open>Validator: traceability, citation coverage\<close>

text \<open>
  White space, for \<open>\s\<close> and for \<open>trim\<close> alike, is TAB, LF, VT, FF, CR, the space,
  U+00A0, U+1680, U+2000 to U+200A, U+2028, U+2029, U+202F, U+205F, U+3000 and U+FEFF.
  \<open>wsLen\<close> is the number of bytes of the white-space character that a UTF-8 byte
  sequence starts with, and 0 when it starts with none. No white-space character begins
  inside the encoding of another character, so the functions below may advance byte by
  byte. Digits (\<open>\d\<close>) and word characters (\<open>\w\<close>) are ASCII by definition.
\<close>

definition wsLen :: "nat list \<Rightarrow> nat" where
  "wsLen bs =
     (case bs of
        [] \<Rightarrow> 0
      | c # cs \<Rightarrow>
          if c = 9 \<or> c = 10 \<or> c = 11 \<or> c = 12 \<or> c = 13 \<or> c = 32 then 1
          else (case cs of
                  [] \<Rightarrow> 0
                | d # ds \<Rightarrow>
                    if c = 194 \<and> d = 160 then 2
                    else (case ds of
                            [] \<Rightarrow> 0
                          | e # es \<Rightarrow>
                              if (c = 225 \<and> d = 154 \<and> e = 128)
                                 \<or> (c = 226 \<and> d = 128
                                      \<and> ((128 \<le> e \<and> e \<le> 138) \<or> e = 168 \<or> e = 169 \<or> e = 175))
                                 \<or> (c = 226 \<and> d = 129 \<and> e = 159)
                                 \<or> (c = 227 \<and> d = 128 \<and> e = 128)
                                 \<or> (c = 239 \<and> d = 187 \<and> e = 191)
                              then 3 else 0)))"

definition spaceLen :: "string \<Rightarrow> nat" where
  "spaceLen t = wsLen (map of_char (take 3 t))"

lemma spaceLen_drop: "0 < spaceLen t \<Longrightarrow> length t - spaceLen t < length t"
  by (cases t) (auto simp: spaceLen_def wsLen_def)

function dropSpaces :: "string \<Rightarrow> string" where
  "dropSpaces t = (if spaceLen t = 0 then t else dropSpaces (drop (spaceLen t) t))"
  by pat_completeness auto
termination
  by (relation "measure length") (auto simp: spaceLen_drop)

declare dropSpaces.simps [simp del]

lemma length_dropSpaces: "length (dropSpaces t) \<le> length t"
proof (induction t rule: dropSpaces.induct)
  case (1 t)
  show ?case
  proof (cases "spaceLen t = 0")
    case True
    then show ?thesis by (subst dropSpaces.simps) simp
  next
    case False
    from "1.IH"[OF False] spaceLen_drop[of t] False show ?thesis
      by (subst dropSpaces.simps) simp
  qed
qed

lemma dropSpaces_shorter: "0 < spaceLen t \<Longrightarrow> length (dropSpaces t) < length t"
  using length_dropSpaces[of "drop (spaceLen t) t"] spaceLen_drop[of t]
  by (subst dropSpaces.simps) simp

fun trimEnd :: "string \<Rightarrow> string" where
  "trimEnd [] = []"
| "trimEnd (c # cs) = (if dropSpaces (c # cs) = [] then [] else c # trimEnd cs)"

definition trim :: "string \<Rightarrow> string" where
  "trim t = trimEnd (dropSpaces t)"


definition isWordChar :: "char \<Rightarrow> bool" where
  "isWordChar c =
     (let n = of_char c :: nat
      in (48 \<le> n \<and> n \<le> 57) \<or> (65 \<le> n \<and> n \<le> 90) \<or> (97 \<le> n \<and> n \<le> 122) \<or> n = 95)"

text \<open>\<open>splitLines\<close> is \<open>text.split(/\r?\n/)\<close>.\<close>

fun splitLinesAcc :: "string \<Rightarrow> string \<Rightarrow> string list" where
  "splitLinesAcc [] cur = [rev cur]"
| "splitLinesAcc (c # cs) cur =
     (if c = CHR 0x0A
      then rev (case cur of d # ds \<Rightarrow> if d = CHR 0x0D then ds else d # ds | [] \<Rightarrow> [])
             # splitLinesAcc cs []
      else splitLinesAcc cs (c # cur))"

definition splitLines :: "string \<Rightarrow> string list" where
  "splitLines t = splitLinesAcc t []"

text \<open>The three line tests: \<open>/^#{1,6}\s+/\<close>, \<open>/^[-*+]\s+/\<close> and \<open>/^\d+\.\s+/\<close>.\<close>

definition headingLine :: "string \<Rightarrow> bool" where
  "headingLine l =
     (let k = length (takeWhile (\<lambda>c. c = CHR ''#'') l)
      in 1 \<le> k \<and> k \<le> 6 \<and> spaceLen (drop k l) \<noteq> 0)"

definition bulletLine :: "string \<Rightarrow> bool" where
  "bulletLine l =
     (case l of
        c # rest \<Rightarrow> (c = CHR ''-'' \<or> c = CHR ''*'' \<or> c = CHR ''+'') \<and> spaceLen rest \<noteq> 0
      | [] \<Rightarrow> False)"

definition numberedLine :: "string \<Rightarrow> bool" where
  "numberedLine l =
     (let k = length (takeWhile isDigit l)
      in 1 \<le> k \<and> (case drop k l of c # rest \<Rightarrow> c = CHR ''.'' \<and> spaceLen rest \<noteq> 0 | [] \<Rightarrow> False))"

text \<open>
  \<open>l.split(/(?<=[.!?])\s+/)\<close>: a run of white space that follows a full stop, an
  exclamation mark or a question mark ends a part and is dropped. \<open>prev\<close> is the byte
  before the current position.
\<close>

lemma dropSpaces_Cons_shorter:
  "0 < spaceLen (c # cs) \<Longrightarrow> length (dropSpaces (c # cs)) < Suc (length cs)"
  using dropSpaces_shorter[of "c # cs"] by simp

function splitParts :: "string \<Rightarrow> char option \<Rightarrow> string \<Rightarrow> string list" where
  "splitParts [] prev cur = [rev cur]"
| "splitParts (c # cs) prev cur =
     (if spaceLen (c # cs) \<noteq> 0
         \<and> (prev = Some (CHR ''.'') \<or> prev = Some (CHR ''!'') \<or> prev = Some (CHR ''?''))
      then rev cur # splitParts (dropSpaces (c # cs)) (Some c) []
      else splitParts cs (Some c) (c # cur))"
  by pat_completeness auto
termination
  by (relation "measure (\<lambda>(t, prev, cur). length t)") (auto simp: dropSpaces_Cons_shorter)

definition splitSentences :: "string \<Rightarrow> string list" where
  "splitSentences t =
     concat (map (\<lambda>line.
       (let l = trim line
        in if l = [] then []
           else if headingLine l \<or> bulletLine l \<or> numberedLine l then [l]
           else splitParts l None []))
       (splitLines t))"

text \<open>\<open>/\b(UNSOURCED|INFERENCE)\b/i.test(s)\<close>.\<close>

definition wordAt :: "string \<Rightarrow> string \<Rightarrow> bool" where
  "wordAt w t =
     (length w \<le> length t \<and> toLowerCase (take (length w) t) = w \<and>
      (case drop (length w) t of [] \<Rightarrow> True | d # ds \<Rightarrow> \<not> isWordChar d))"

fun markedFrom :: "char option \<Rightarrow> string \<Rightarrow> bool" where
  "markedFrom prev [] = False"
| "markedFrom prev (c # cs) =
     (((case prev of None \<Rightarrow> True | Some p \<Rightarrow> \<not> isWordChar p) \<and>
       (wordAt ''unsourced'' (c # cs) \<or> wordAt ''inference'' (c # cs)))
      \<or> markedFrom (Some c) cs)"

definition isMarkedUnsourced :: "string \<Rightarrow> bool" where
  "isMarkedUnsourced t = markedFrom None t"

definition traceabilityCanValidate :: "AcceptanceCriterionSpec \<Rightarrow> bool option" where
  "traceabilityCanValidate ac =
     Some ((case ruleGet ac ''minCitationCoverage'' of Some (JNum n) \<Rightarrow> True | _ \<Rightarrow> False)
           \<or> (case ruleGet ac ''citationPattern'' of Some (JStr p) \<Rightarrow> True | _ \<Rightarrow> False))"

definition minCoverageOf :: "(string \<times> json) list \<Rightarrow> rat" where
  "minCoverageOf r =
     (case map_of r ''minCitationCoverage'' of Some (JNum n) \<Rightarrow> n | _ \<Rightarrow> 1 / 2)"

definition patternSourceOf :: "(string \<times> json) list \<Rightarrow> string" where
  "patternSourceOf r =
     (case map_of r ''citationPattern'' of
        Some (JStr p) \<Rightarrow> p | _ \<Rightarrow> defaultCitationPattern)"

record ArtifactCoverage =
  covArtifactId :: string
  coverage :: rat
  cited :: nat
  total :: nat

text \<open>
  The body of the loop over the targets, for one text: the chunks that are not blank, the
  number of them with a citation or a marker, the total clamped to at least 1, and the
  quotient as the runtime computes it.
\<close>

definition coverageOfText ::
  "JsRuntime \<Rightarrow> (string \<Rightarrow> bool) \<Rightarrow> string \<Rightarrow> string \<Rightarrow> ArtifactCoverage" where
  "coverageOfText rt citationTest aid text =
     (let sentences = filter (\<lambda>c. length (trim c) > 0) (splitSentences text);
          citedN = length (filter (\<lambda>c. citationTest c \<or> isMarkedUnsourced c) sentences);
          totalN = max 1 (length sentences)
      in \<lparr>covArtifactId = aid, coverage = numDivide rt (of_nat citedN) (of_nat totalN),
          cited = citedN, total = totalN\<rparr>)"

fun coverageLoop ::
  "JsRuntime \<Rightarrow> VCCSpec \<Rightarrow> 'st RunContext \<Rightarrow> (string \<Rightarrow> bool) \<Rightarrow> string list \<Rightarrow>
   ArtifactCoverage list \<Rightarrow> exn + ArtifactCoverage list" where
  "coverageLoop rt spec ctx citationTest [] perArtifact = Inr perArtifact"
| "coverageLoop rt spec ctx citationTest (aid # rest) perArtifact =
     bindE (readArtifactText spec ctx aid) (\<lambda>text.
       coverageLoop rt spec ctx citationTest rest
         (perArtifact @ [coverageOfText rt citationTest aid text]))"

text \<open>\<open>perArtifact.reduce((m, x) => Math.min(m, x.coverage), 1)\<close>.\<close>

definition worstCoverage :: "ArtifactCoverage list \<Rightarrow> rat" where
  "worstCoverage perArtifact = foldl (\<lambda>m x. min m (coverage x)) 1 perArtifact"

definition traceabilityEvidenceText ::
  "JsRuntime \<Rightarrow> rat \<Rightarrow> ArtifactCoverage list \<Rightarrow> rat \<Rightarrow> bool \<Rightarrow> string" where
  "traceabilityEvidenceText rt minCoverage perArtifact worst pass =
     ''Traceability Citation Coverage'' @ [CHR 0x0A]
     @ ''minCoverage='' @ toStr rt (JNum minCoverage) @ [CHR 0x0A]
     @ joinWith [CHR 0x0A]
         (map (\<lambda>x. covArtifactId x @ '': coverage='' @ toFixed rt (coverage x) 3 @ '' (''
                     @ showNat (cited x) @ ''/'' @ showNat (total x) @ '')'') perArtifact)
     @ [CHR 0x0A] @ ''Result: '' @ (if pass then ''PASS'' else ''FAIL'') @ '' (worst=''
     @ toFixed rt worst 3 @ '')''"

definition traceabilityValidate ::
  "JsRuntime \<Rightarrow> AcceptanceCriterionSpec \<Rightarrow> VCCSpec \<Rightarrow> 'st RunContext \<Rightarrow>
   exn + (ValidationResult \<times> 'st RunContext)" where
  "traceabilityValidate rt ac spec ctx =
     (case rule ac of
        None \<Rightarrow>
          Inl (TypeError ''Cannot read properties of undefined (reading minCitationCoverage)'')
      | Some r \<Rightarrow>
          (let minCoverage = minCoverageOf r;
               patternSource = patternSourceOf r
           in bindE (newRegExp rt patternSource) (\<lambda>citationTest.
              bindE (coverageLoop rt spec ctx citationTest (orEmpty (targetArtifacts ac)) [])
                (\<lambda>perArtifact.
                (let worst = worstCoverage perArtifact;
                     pass = (worst \<ge> minCoverage)
                 in bindE (writeEvidence ctx (evidenceUriFor (acId ac))
                             (traceabilityEvidenceText rt minCoverage perArtifact worst pass))
                      (\<lambda>(ev, ctx').
                         Inr (mkResult ac (if pass then Pass else Fail)
                                (if pass then ''Citation coverage meets threshold.''
                                 else ''Citation coverage below threshold.'')
                                Auto ev, ctx')))))))"

definition traceabilityCitationCoverage :: "JsRuntime \<Rightarrow> 'st ValidatorAdapter" where
  "traceabilityCitationCoverage rt =
     \<lparr>validatorId = ''traceability.citationCoverage'',
      supportedTypes = [AcTraceability],
      canValidate = (\<lambda>ac spec ctx. traceabilityCanValidate ac),
      validate = traceabilityValidate rt\<rparr>"


subsection \<open>Validator: consistency, simple cross-check\<close>

text \<open>
  \<open>texts\<close> is an object keyed by artifact id: a read that throws adds nothing, a repeated
  target overwrites its entry.
\<close>

fun readTexts ::
  "VCCSpec \<Rightarrow> 'st RunContext \<Rightarrow> string list \<Rightarrow> (string \<times> string) list \<Rightarrow>
   (string \<times> string) list" where
  "readTexts spec ctx [] texts = texts"
| "readTexts spec ctx (aid # rest) texts =
     readTexts spec ctx rest
       (case readArtifactText spec ctx aid of
          Inl e \<Rightarrow> texts
        | Inr text \<Rightarrow> objSet texts aid text)"

record ContradictionSignal =
  confidence :: rat
  signalSummary :: string

definition textOf :: "(string \<times> string) list \<Rightarrow> string \<Rightarrow> string" where
  "textOf texts k = (case map_of texts k of Some t \<Rightarrow> t | None \<Rightarrow> [])"

text \<open>The pairs \<open>(ids[i], ids[j])\<close> with \<open>i < j\<close>, in the order of the two nested loops.\<close>

fun idPairs :: "string list \<Rightarrow> (string \<times> string) list" where
  "idPairs [] = []"
| "idPairs (a # rest) = map (Pair a) rest @ idPairs rest"

definition outOfScopeHeadings :: "string list" where
  "outOfScopeHeadings = [''Out of Scope'', ''Non-goals'', ''Non Goals'']"

text \<open>The doubles that the literals \<open>0.9\<close>, \<open>0.86\<close> and \<open>0.85\<close> denote.\<close>

definition zeroPointNine :: rat where
  "zeroPointNine = 8106479329266893 / 9007199254740992"

definition zeroPointEightSix :: rat where
  "zeroPointEightSix = 7746191359077253 / 9007199254740992"

definition zeroPointEightFive :: rat where
  "zeroPointEightFive = 7656119366529843 / 9007199254740992"

definition scopeSignals ::
  "JsRuntime \<Rightarrow> (string \<times> string) list \<Rightarrow> string \<times> string \<Rightarrow> ContradictionSignal list" where
  "scopeSignals rt texts ab =
     (case ab of (a, b) \<Rightarrow>
        concat (map (\<lambda>item.
          if mentionsAsInScope rt (textOf texts b) item
          then [\<lparr>confidence = zeroPointNine,
                 signalSummary = b @ '' treats '' @ [CHR 0x27] @ item @ [CHR 0x27]
                   @ '' as in-scope, but '' @ a @ '' lists it out-of-scope.''\<rparr>]
          else [])
          (extractListUnderHeadings rt (textOf texts a) outOfScopeHeadings))
        @ concat (map (\<lambda>item.
          if mentionsAsInScope rt (textOf texts a) item
          then [\<lparr>confidence = zeroPointNine,
                 signalSummary = a @ '' treats '' @ [CHR 0x27] @ item @ [CHR 0x27]
                   @ '' as in-scope, but '' @ b @ '' lists it out-of-scope.''\<rparr>]
          else [])
          (extractListUnderHeadings rt (textOf texts b) outOfScopeHeadings)))"

definition mustSignals ::
  "JsRuntime \<Rightarrow> (string \<times> string) list \<Rightarrow> string \<times> string \<Rightarrow> ContradictionSignal list" where
  "mustSignals rt texts ab =
     (case ab of (a, b) \<Rightarrow>
        concat (map (\<lambda>req.
          if negates rt (textOf texts b) req
          then [\<lparr>confidence = zeroPointEightSix,
                 signalSummary = b @ '' negates a MUST/SHALL from '' @ a @ '': '' @ [CHR 0x27]
                   @ trimTo rt req 120 @ [CHR 0x27]\<rparr>]
          else [])
          (extractMustStatements rt (textOf texts a)))
        @ concat (map (\<lambda>req.
          if negates rt (textOf texts a) req
          then [\<lparr>confidence = zeroPointEightSix,
                 signalSummary = a @ '' negates a MUST/SHALL from '' @ b @ '': '' @ [CHR 0x27]
                   @ trimTo rt req 120 @ [CHR 0x27]\<rparr>]
          else [])
          (extractMustStatements rt (textOf texts b))))"

definition findContradictionSignals ::
  "JsRuntime \<Rightarrow> (string \<times> string) list \<Rightarrow> ContradictionSignal list" where
  "findContradictionSignals rt texts =
     (let ids = objectKeys texts
      in if length ids < 2 then []
         else concat (map (scopeSignals rt texts) (idPairs ids))
              @ concat (map (mustSignals rt texts) (idPairs ids)))"

definition consistencyEvidenceText ::
  "JsRuntime \<Rightarrow> (string \<times> string) list \<Rightarrow> ContradictionSignal list \<Rightarrow> nat \<Rightarrow> bool \<Rightarrow> string" where
  "consistencyEvidenceText rt texts signals highN pass =
     ''Consistency Simple Cross-Check'' @ [CHR 0x0A]
     @ ''Checked artifacts: '' @ joinWith '', '' (objectKeys texts) @ [CHR 0x0A]
     @ ''Signals:'' @ [CHR 0x0A]
     @ (if length signals > 0
        then joinWith [CHR 0x0A]
               (map (\<lambda>sg. ''- ['' @ toFixed rt (confidence sg) 2 @ ''] '' @ signalSummary sg) signals)
        else ''- none'')
     @ [CHR 0x0A] @ ''Result: '' @ (if pass then ''PASS'' else ''FAIL'') @ '' (high_conf=''
     @ showNat highN @ '')''"

definition consistencyValidate ::
  "JsRuntime \<Rightarrow> AcceptanceCriterionSpec \<Rightarrow> VCCSpec \<Rightarrow> 'st RunContext \<Rightarrow>
   exn + (ValidationResult \<times> 'st RunContext)" where
  "consistencyValidate rt ac spec ctx =
     (let texts = readTexts spec ctx (orEmpty (targetArtifacts ac)) [];
          signals = findContradictionSignals rt texts;
          high = filter (\<lambda>sg. confidence sg \<ge> zeroPointEightFive) signals;
          pass = (length high = 0)
      in bindE (writeEvidence ctx (evidenceUriFor (acId ac))
                  (consistencyEvidenceText rt texts signals (length high) pass))
           (\<lambda>(ev, ctx').
              Inr (mkResult ac (if pass then Pass else Fail)
                     (if pass then ''No high-confidence contradictions detected.''
                      else ''Potential contradictions detected.'')
                     AiJudged ev, ctx')))"

definition consistencySimpleCrossCheck :: "JsRuntime \<Rightarrow> 'st ValidatorAdapter" where
  "consistencySimpleCrossCheck rt =
     \<lparr>validatorId = ''consistency.simpleCrossCheck'',
      supportedTypes = [AcConsistency],
      canValidate = (\<lambda>ac spec ctx. Some True),
      validate = consistencyValidate rt\<rparr>"

subsection \<open>Validator: provenance, required fields\<close>

text \<open>
  \<open>map[r]\<close> on the object literal built from the signals, then \<open>!\<close>: one of the seven own
  properties gives its boolean; a name that \<open>Object.prototype\<close> defines gives the inherited
  function or object, which is truthy; any other name gives \<open>undefined\<close>.
\<close>

definition objectPrototypeKeys :: "string list" where
  "objectPrototypeKeys =
     [''constructor'', ''__defineGetter__'', ''__defineSetter__'', ''hasOwnProperty'',
      ''__lookupGetter__'', ''__lookupSetter__'', ''isPrototypeOf'', ''propertyIsEnumerable'',
      ''toString'', ''valueOf'', ''__proto__'', ''toLocaleString'']"

definition signalMap :: "ProvenanceSignals \<Rightarrow> (string \<times> bool) list" where
  "signalMap sig =
     [(''inputs.enumerated'', inputsEnumerated sig),
      (''tooling.recorded'', toolingRecorded sig),
      (''agentActions.logged'', agentActionsLogged sig),
      (''artifactHashes.recorded'', artifactHashesRecorded sig),
      (''dependencies.recorded'', dependenciesRecorded sig),
      (''parameters.recorded'', parametersRecorded sig),
      (''attestation.signed'', attestationSigned sig)]"

definition mapLookupTruthy :: "(string \<times> bool) list \<Rightarrow> string \<Rightarrow> bool" where
  "mapLookupTruthy m k =
     (case map_of m k of Some b \<Rightarrow> b | None \<Rightarrow> k \<in> set objectPrototypeKeys)"

definition provenanceCanValidate :: "AcceptanceCriterionSpec \<Rightarrow> 'st RunContext \<Rightarrow> bool option" where
  "provenanceCanValidate ac ctx =
     Some ((case ruleGet ac ''require'' of Some (JArr xs) \<Rightarrow> True | _ \<Rightarrow> False)
           \<and> provenanceSignals ctx \<noteq> None)"

text \<open>
  \<open>(ac.rule.require as string[]) ?? []\<close>, the first statement of \<open>validate\<close>, throws when
  the criterion has no rule; \<open>required.filter\<close>, reached when the context has signals,
  throws unless the value is an array.
\<close>

definition requiredOf :: "AcceptanceCriterionSpec \<Rightarrow> exn + json" where
  "requiredOf ac =
     (case rule ac of
        None \<Rightarrow> Inl (TypeError ''Cannot read properties of undefined (reading require)'')
      | Some r \<Rightarrow>
          (case map_of r ''require'' of
             None \<Rightarrow> Inr (JArr [])
           | Some JNull \<Rightarrow> Inr (JArr [])
           | Some v \<Rightarrow> Inr v))"

definition asArray :: "json \<Rightarrow> exn + json list" where
  "asArray v =
     (case v of
        JArr xs \<Rightarrow> Inr xs
      | _ \<Rightarrow> Inl (TypeError ''required.filter is not a function''))"

definition provenanceValidate ::
  "JsRuntime \<Rightarrow> AcceptanceCriterionSpec \<Rightarrow> VCCSpec \<Rightarrow> 'st RunContext \<Rightarrow>
   exn + (ValidationResult \<times> 'st RunContext)" where
  "provenanceValidate rt ac spec ctx =
     bindE (requiredOf ac) (\<lambda>requireValue.
       (case provenanceSignals ctx of
          None \<Rightarrow>
            bindE (writeEvidence ctx (evidenceUriFor (acId ac))
                     ''FAIL: provenanceSignals missing in RunContext; cannot validate required provenance.'')
              (\<lambda>(ev, ctx').
                 Inr (mkResult ac Fail
                        ''Provenance signals missing; cannot validate required provenance policy.''
                        Auto ev, ctx'))
        | Some sig \<Rightarrow>
            bindE (asArray requireValue) (\<lambda>required.
              (let missing = filter (\<lambda>r. \<not> mapLookupTruthy (signalMap sig) (propertyKey rt r))
                               required;
                   pass = (length missing = 0);
                   evidenceText =
                     (if pass
                      then ''PASS: All required provenance requirements are satisfied.'' @ [CHR 0x0A]
                             @ ''Required: '' @ joinJson rt '', '' required
                      else ''FAIL: Missing provenance requirements.'' @ [CHR 0x0A]
                             @ ''Required: '' @ joinJson rt '', '' required @ [CHR 0x0A]
                             @ ''Missing: '' @ joinJson rt '', '' missing)
               in bindE (writeEvidence ctx (evidenceUriFor (acId ac)) evidenceText) (\<lambda>(ev, ctx').
                    Inr (mkResult ac (if pass then Pass else Fail)
                           (if pass then ''Provenance policy satisfied.''
                            else ''Provenance policy missing required signals.'')
                           Auto ev, ctx'))))))"

definition provenanceRequiredFields :: "JsRuntime \<Rightarrow> 'st ValidatorAdapter" where
  "provenanceRequiredFields rt =
     \<lparr>validatorId = ''provenance.requiredFields'',
      supportedTypes = [AcProvenance],
      canValidate = (\<lambda>ac spec ctx. provenanceCanValidate ac ctx),
      validate = provenanceValidate rt\<rparr>"

subsection \<open>Validator: rubric, AI judge\<close>

definition rubricCanValidate :: "AcceptanceCriterionSpec \<Rightarrow> VCCSpec \<Rightarrow> bool option" where
  "rubricCanValidate ac spec =
     (case ruleGet ac ''rubricRef'' of
        None \<Rightarrow> Some False
      | Some rubricRef \<Rightarrow>
          if \<not> truthy rubricRef then Some False
          else Some (list_ex (\<lambda>r. JStr (rubricId r) = rubricRef) (rubricsOf spec)))"

text \<open>
  \<open>rubric?.text\<close>: \<open>RubricSpec\<close> declares \<open>rubricId\<close>, \<open>scale\<close>, \<open>anchors\<close> and
  \<open>passThreshold\<close>, and no \<open>text\<close>; the property read is \<open>undefined\<close> for every rubric.
\<close>

definition rubricTextProperty :: "RubricSpec \<Rightarrow> string option" where
  "rubricTextProperty r = None"

text \<open>
  \<open>(ac.rule.passThreshold as number | undefined) ?? 4\<close> keeps whatever value the rule holds
  unless it is absent or \<open>null\<close>; \<open>judged.score >= passThreshold\<close> compares numbers, after
  the runtime's \<open>ToNumber\<close> on a threshold that is not one (\<open>NaN\<close> compares false).
\<close>

definition passThresholdOf :: "(string \<times> json) list \<Rightarrow> json" where
  "passThresholdOf r =
     (case map_of r ''passThreshold'' of
        None \<Rightarrow> JNum 4 | Some JNull \<Rightarrow> JNum 4 | Some v \<Rightarrow> v)"

definition scoreAtLeast :: "JsRuntime \<Rightarrow> rat \<Rightarrow> json \<Rightarrow> bool" where
  "scoreAtLeast rt sc threshold =
     (case threshold of
        JNum n \<Rightarrow> sc \<ge> n
      | other \<Rightarrow> (case toNumber rt other of None \<Rightarrow> False | Some n \<Rightarrow> sc \<ge> n))"

definition rubricTextFor :: "JsRuntime \<Rightarrow> (string \<times> json) list \<Rightarrow> VCCSpec \<Rightarrow> string" where
  "rubricTextFor rt r spec =
     (let rubricRef = map_of r ''rubricRef'';
          rubric = find (\<lambda>x. Some (JStr (rubricId x)) = rubricRef) (rubricsOf spec)
      in case (case rubric of None \<Rightarrow> None | Some x \<Rightarrow> rubricTextProperty x) of
           Some t \<Rightarrow> t
         | None \<Rightarrow> ''Rubric '' @ templateStr rt rubricRef @ '' not found in spec.'')"

definition firstTarget :: "AcceptanceCriterionSpec \<Rightarrow> string option" where
  "firstTarget ac = (case orEmpty (targetArtifacts ac) of [] \<Rightarrow> None | t # rest \<Rightarrow> Some t)"

definition targetLabel :: "AcceptanceCriterionSpec \<Rightarrow> string" where
  "targetLabel ac = (case firstTarget ac of None \<Rightarrow> ''(none)'' | Some t \<Rightarrow> t)"

text \<open>\<open>target ? await safeReadText(ctx, target) : ""\<close>; the empty string is falsy.\<close>

definition rubricContent ::
  "AcceptanceCriterionSpec \<Rightarrow> 'st RunContext \<Rightarrow> exn + (string \<times> 'st RunContext)" where
  "rubricContent ac ctx =
     (case firstTarget ac of
        None \<Rightarrow> Inr ([], ctx)
      | Some t \<Rightarrow> if t \<noteq> [] then safeReadText ctx t else Inr ([], ctx))"

definition rubricSkipText :: "JsRuntime \<Rightarrow> AcceptanceCriterionSpec \<Rightarrow> (string \<times> json) list \<Rightarrow> string" where
  "rubricSkipText rt ac r =
     ''SKIP: No aiJudge configured in RunContext.'' @ [CHR 0x0A]
     @ ''Rubric='' @ templateStr rt (map_of r ''rubricRef'') @ [CHR 0x0A]
     @ ''passThreshold='' @ propertyKey rt (passThresholdOf r) @ [CHR 0x0A]
     @ ''Target='' @ targetLabel ac @ [CHR 0x0A]
     @ ''To enable: provide RunContext.aiJudge(args) that returns {score,rationale,model?}.''"

definition rubricJudgedText ::
  "JsRuntime \<Rightarrow> AcceptanceCriterionSpec \<Rightarrow> (string \<times> json) list \<Rightarrow> AiJudgeScore \<Rightarrow> bool \<Rightarrow>
   string" where
  "rubricJudgedText rt ac r judged pass =
     (if pass then ''PASS'' else ''FAIL'') @ '': AI rubric evaluation.'' @ [CHR 0x0A]
     @ ''Rubric='' @ templateStr rt (map_of r ''rubricRef'') @ [CHR 0x0A]
     @ ''passThreshold='' @ propertyKey rt (passThresholdOf r) @ [CHR 0x0A]
     @ ''score='' @ toStr rt (JNum (score judged)) @ [CHR 0x0A]
     @ ''model='' @ (case model judged of None \<Rightarrow> ''(unspecified)'' | Some m \<Rightarrow> m) @ [CHR 0x0A]
     @ ''rationale:'' @ [CHR 0x0A] @ rationale judged @ [CHR 0x0A]
     @ ''Target='' @ targetLabel ac"

definition rubricValidate ::
  "JsRuntime \<Rightarrow> AcceptanceCriterionSpec \<Rightarrow> VCCSpec \<Rightarrow> 'st RunContext \<Rightarrow>
   exn + (ValidationResult \<times> 'st RunContext)" where
  "rubricValidate rt ac spec ctx =
     (case rule ac of
        None \<Rightarrow> Inl (TypeError ''Cannot read properties of undefined (reading rubricRef)'')
      | Some r \<Rightarrow>
          (let passThreshold = passThresholdOf r;
               rubricText = rubricTextFor rt r spec
           in bindE (rubricContent ac ctx) (\<lambda>(content, ctx1).
                (case aiJudge ctx1 of
                   None \<Rightarrow>
                     bindE (writeEvidence ctx1 (evidenceUriFor (acId ac)) (rubricSkipText rt ac r))
                       (\<lambda>(ev, ctx2).
                          Inr (mkResult ac Skip ''AI rubric judge not configured; skipped.''
                                 AiJudged ev, ctx2))
                 | Some judge \<Rightarrow>
                     bindE (judge \<lparr>rubricText = rubricText, content = content,
                                   judgePassThreshold = passThreshold, judgeAcId = acId ac\<rparr>)
                       (\<lambda>judged.
                          (let pass = scoreAtLeast rt (score judged) passThreshold
                           in bindE (writeEvidence ctx1 (evidenceUriFor (acId ac))
                                       (rubricJudgedText rt ac r judged pass))
                                (\<lambda>(ev, ctx2).
                                   Inr (mkResult ac (if pass then Pass else Fail)
                                          (if pass then ''Rubric evaluation passed.''
                                           else ''Rubric evaluation failed.'')
                                          AiJudged ev, ctx2))))))))"

definition rubricAiJudge :: "JsRuntime \<Rightarrow> 'st ValidatorAdapter" where
  "rubricAiJudge rt =
     \<lparr>validatorId = ''rubric.aiJudge'',
      supportedTypes = [AcRubric, AcConsistency],
      canValidate = (\<lambda>ac spec ctx. rubricCanValidate ac spec),
      validate = rubricValidate rt\<rparr>"

subsection \<open>Registry builder\<close>

definition buildDefaultRegistry :: "JsRuntime \<Rightarrow> 'st AdapterRegistry" where
  "buildDefaultRegistry rt =
     \<lparr>validators =
        [structureRequiredSections rt,
         traceabilityCitationCoverage rt,
         consistencySimpleCrossCheck rt,
         provenanceRequiredFields rt,
         rubricAiJudge rt]\<rparr>"

section \<open>Concrete contracts, a store and a runtime\<close>

text \<open>
  An in-memory artifact store (a list of files), a runtime with simple conversions, a
  contract with one required specification document, and the contract of the README's
  quick start, used to run the definitions on concrete inputs.
\<close>

definition memoryStore :: "(string \<times> string) list \<Rightarrow> (string \<times> string) list ArtifactStore" where
  "memoryStore files =
     \<lparr>storeExists = (\<lambda>st u. Inr (map_of st u \<noteq> None)),
      readText = (\<lambda>st u. case map_of st u of None \<Rightarrow> Inl (StoreFailure u) | Some t \<Rightarrow> Inr t),
      writeText = (\<lambda>st u c. Inr (AList.update u c st)),
      hash = (\<lambda>st u. case map_of st u of
                        None \<Rightarrow> Inl (StoreFailure u)
                      | Some t \<Rightarrow> Inr (''len-'' @ showNat (length t))),
      storeState = files\<rparr>"

definition demoCitationTest :: "string \<Rightarrow> bool" where
  "demoCitationTest t = strIncludes t ''](http''"

definition demoRuntime :: JsRuntime where
  "demoRuntime =
     \<lparr>toStr = (\<lambda>v. ''value''),
      toFixed = (\<lambda>x n. ''number''),
      toNumber = (\<lambda>v. None),
      jsonStringify = (\<lambda>v. ''json''),
      newRegExp = (\<lambda>src. Inr demoCitationTest),
      numDivide = (\<lambda>a b. a / b),
      trimTo = (\<lambda>t n. take n t),
      hasSection = (\<lambda>text sectionTitle. strIncludes text sectionTitle),
      extractListUnderHeadings = (\<lambda>text hs. []),
      mentionsAsInScope = (\<lambda>text item. False),
      extractMustStatements = (\<lambda>text. []),
      negates = (\<lambda>text req. False)\<rparr>"

definition demoArtifact :: ArtifactSpec where
  "demoArtifact =
     \<lparr>artifactId = ''spec-doc'', kind = ''specification'', subtype = None,
      description = ''The specification'',
      formats = Some [\<lparr>mediaType = ''text/markdown'', uri = ''mem://spec.md''\<rparr>],
      required = True, dependsOn = Some [], owners = Some [''role:Author''],
      qualityLevel = Some Draft, metadata = None\<rparr>"

definition demoCriterion :: AcceptanceCriterionSpec where
  "demoCriterion =
     \<lparr>acId = ''AC-1'', targetArtifacts = Some [''spec-doc''], acType = AcStructure,
      severity = Must,
      rule = Some [(''requiredSections'', JArr [JStr ''Scope'', JStr ''Risks''])],
      evidence = Some \<lparr>evRequired = True, evidenceType = Auto, producedArtifact = None\<rparr>\<rparr>"

definition demoSpec :: VCCSpec where
  "demoSpec =
     \<lparr>vccVersion = ''sdlaf.vcc/v1'', specId = ''demo'', title = ''Demo'', summary = ''Demo'',
      intent = Some (JObj []), artifacts = [demoArtifact], relationships = None,
      acceptance = Some [demoCriterion], rubrics = None, gates = None, packaging = Some [],
      delivery = Some [],
      provenancePolicy =
        Some \<lparr>policyId = ''P-1'', require = Some [''inputs.enumerated''], strength = ''basic''\<rparr>,
      riskControls = None, resourceConstraints = None\<rparr>"

definition demoSignals :: ProvenanceSignals where
  "demoSignals =
     \<lparr>inputsEnumerated = True, toolingRecorded = False, agentActionsLogged = False,
      artifactHashesRecorded = False, dependenciesRecorded = False,
      parametersRecorded = False, attestationSigned = False\<rparr>"

definition demoText :: string where
  "demoText = ''Intro. See [a](http://x).''"

definition demoFiles :: "(string \<times> string) list" where
  "demoFiles = [(''mem://spec.md'', demoText)]"

definition demoCtx :: "(string \<times> string) list RunContext" where
  "demoCtx =
     \<lparr>aiJudge = None, runId = ''run-1'', workspaceRoot = ''/'',
      team = [\<lparr>role = ''role:Author'', agentId = ''agent-1''\<rparr>],
      ctxArtifacts = memoryStore demoFiles,
      provenanceSignals = Some demoSignals\<rparr>"

definition demoNormalized :: VCCSpec where
  "demoNormalized =
     (case injectDefaults None (normalizeArrays demoSpec) of Inr s \<Rightarrow> s | Inl e \<Rightarrow> demoSpec)"

definition emptyRegistry :: "(string \<times> string) list AdapterRegistry" where
  "emptyRegistry = \<lparr>validators = []\<rparr>"

definition demoNamedCriterion :: AcceptanceCriterionSpec where
  "demoNamedCriterion = demoCriterion\<lparr>rule := Some [(''adapter'', JStr ''custom.checker'')]\<rparr>"

definition demoNamedSpec :: VCCSpec where
  "demoNamedSpec = demoSpec\<lparr>acceptance := Some [demoNamedCriterion]\<rparr>"

definition demoNamedNormalized :: VCCSpec where
  "demoNamedNormalized =
     (case injectDefaults None (normalizeArrays demoNamedSpec) of
        Inr s \<Rightarrow> s | Inl e \<Rightarrow> demoSpec)"

definition demoRegistry :: "(string \<times> string) list AdapterRegistry" where
  "demoRegistry = buildDefaultRegistry demoRuntime"

text \<open>
  A validator that supports the type \<open>structure\<close> and whose \<open>canValidate\<close> throws, and a
  registry that holds nothing else.
\<close>

definition throwingValidator :: "(string \<times> string) list ValidatorAdapter" where
  "throwingValidator =
     \<lparr>validatorId = ''structure.throws'',
      supportedTypes = [AcStructure],
      canValidate = (\<lambda>ac spec ctx. None),
      validate = (\<lambda>ac spec ctx. Inl (StoreFailure ''unused''))\<rparr>"

definition throwingRegistry :: "(string \<times> string) list AdapterRegistry" where
  "throwingRegistry = \<lparr>validators = [throwingValidator]\<rparr>"




definition demoConsistCriterion :: AcceptanceCriterionSpec where
  "demoConsistCriterion = acUnivConsist [''spec-doc'', ''spec-doc'']"

definition noSignals :: ProvenanceSignals where
  "noSignals =
     \<lparr>inputsEnumerated = False, toolingRecorded = False, agentActionsLogged = False,
      artifactHashesRecorded = False, dependenciesRecorded = False,
      parametersRecorded = False, attestationSigned = False\<rparr>"

definition demoCtxAllFalse :: "(string \<times> string) list RunContext" where
  "demoCtxAllFalse = demoCtx\<lparr>provenanceSignals := Some noSignals\<rparr>"

definition demoInheritedCriterion :: AcceptanceCriterionSpec where
  "demoInheritedCriterion = acUnivProv [''spec-doc''] (Some [''toString''])"

definition demoRubricSpec :: VCCSpec where
  "demoRubricSpec = demoSpec\<lparr>rubrics := Some [rubricOverall]\<rparr>"

definition demoRubricCriterion :: AcceptanceCriterionSpec where
  "demoRubricCriterion =
     \<lparr>acId = ''AC-R'', targetArtifacts = Some [''spec-doc''], acType = AcRubric,
      severity = Should,
      rule = Some [(''rubricRef'', JStr ''RUBRIC-OVERALL-v1'')],
      evidence = Some \<lparr>evRequired = True, evidenceType = AiJudged, producedArtifact = None\<rparr>\<rparr>"

text \<open>A judge that gives every text the top score.\<close>

definition lenientJudge :: "AiJudgeArgs \<Rightarrow> exn + AiJudgeScore" where
  "lenientJudge args =
     Inr \<lparr>score = 5, rationale = rubricText args, judgeRubricId = None, model = None\<rparr>"

definition demoJudgeCtx :: "(string \<times> string) list RunContext" where
  "demoJudgeCtx = demoCtx\<lparr>aiJudge := Some lenientJudge\<rparr>"

definition statusOf :: "exn + (ValidationResult \<times> 'c) \<Rightarrow> Status option" where
  "statusOf out = (case out of Inl e \<Rightarrow> None | Inr (r, c) \<Rightarrow> Some (status r))"

section \<open>Properties of the Run-Until-Correct loop\<close>

lemma withinBudget_add: "withinBudget (t + k) m \<Longrightarrow> withinBudget t m"
  by (cases m) auto

lemma run_from_success_iff:
  "runUntilCorrect_from ev st rf m t h out = SUCCESS \<longleftrightarrow>
     (\<exists>k h' out'. withinBudget (t + k) m \<and>
        iterationState ev st rf k h out = Some (h', out') \<and> ev out' = [])"
proof (induction ev st rf m t h out rule: runUntilCorrect_from.induct)
  case (1 ev st rf m t h out)
  show ?case
  proof (cases "withinBudget t m")
    case False
    have "\<not> withinBudget (t + k) m" for k using False withinBudget_add by blast
    with False show ?thesis by (subst runUntilCorrect_from.simps) (simp add: Let_def)
  next
    case wb: True
    show ?thesis
    proof (cases "ev out = []")
      case True
      have "withinBudget (t + 0) m \<and> iterationState ev st rf 0 h out = Some (h, out) \<and> ev out = []"
        using wb True by simp
      then have "\<exists>k h' out'. withinBudget (t + k) m \<and>
          iterationState ev st rf k h out = Some (h', out') \<and> ev out' = []"
        by blast
      with wb True show ?thesis by (subst runUntilCorrect_from.simps) (simp add: Let_def)
    next
      case ne: False
      obtain b h1 where s: "st (ev out) h = (b, h1)" by (cases "st (ev out) h")
      show ?thesis
      proof (cases b)
        case True
        have "\<not> (\<exists>k h' out'. withinBudget (t + k) m \<and>
            iterationState ev st rf k h out = Some (h', out') \<and> ev out' = [])"
        proof
          assume "\<exists>k h' out'. withinBudget (t + k) m \<and>
            iterationState ev st rf k h out = Some (h', out') \<and> ev out' = []"
          then obtain k h' out' where
            k: "iterationState ev st rf k h out = Some (h', out')" "ev out' = []" by blast
          show False using k ne s True by (cases k) auto
        qed
        moreover have "runUntilCorrect_from ev st rf m t h out = FAILURE"
          using wb ne s True by (subst runUntilCorrect_from.simps) (simp add: Let_def)
        ultimately show ?thesis by simp
      next
        case False
        have step: "runUntilCorrect_from ev st rf m t h out =
              runUntilCorrect_from ev st rf m (t + 1) h1 (rf out (ev out))"
          using wb ne s False by (subst runUntilCorrect_from.simps) (simp add: Let_def)
        have IH: "(runUntilCorrect_from ev st rf m (t + 1) h1 (rf out (ev out)) = SUCCESS) =
            (\<exists>k h' out'. withinBudget (t + 1 + k) m \<and>
               iterationState ev st rf k h1 (rf out (ev out)) = Some (h', out') \<and> ev out' = [])"
          using "1.IH"[OF wb refl _ s[symmetric]] ne False by simp
        have "(\<exists>k h' out'. withinBudget (t + k) m \<and>
                 iterationState ev st rf k h out = Some (h', out') \<and> ev out' = [])
           = (\<exists>k h' out'. withinBudget (t + 1 + k) m \<and>
                 iterationState ev st rf k h1 (rf out (ev out)) = Some (h', out') \<and> ev out' = [])"
        proof
          assume "\<exists>k h' out'. withinBudget (t + k) m \<and>
                 iterationState ev st rf k h out = Some (h', out') \<and> ev out' = []"
          then obtain k h' out' where k: "withinBudget (t + k) m"
            "iterationState ev st rf k h out = Some (h', out')" "ev out' = []" by blast
          then obtain j where j: "k = Suc j" using ne by (cases k) auto
          with k ne s False have "withinBudget (t + 1 + j) m \<and>
              iterationState ev st rf j h1 (rf out (ev out)) = Some (h', out') \<and> ev out' = []"
            by simp
          then show "\<exists>k h' out'. withinBudget (t + 1 + k) m \<and>
                 iterationState ev st rf k h1 (rf out (ev out)) = Some (h', out') \<and> ev out' = []"
            by blast
        next
          assume "\<exists>k h' out'. withinBudget (t + 1 + k) m \<and>
                 iterationState ev st rf k h1 (rf out (ev out)) = Some (h', out') \<and> ev out' = []"
          then obtain k h' out' where k: "withinBudget (t + 1 + k) m"
            "iterationState ev st rf k h1 (rf out (ev out)) = Some (h', out')" "ev out' = []"
            by blast
          with ne s False have "withinBudget (t + Suc k) m \<and>
              iterationState ev st rf (Suc k) h out = Some (h', out') \<and> ev out' = []"
            by simp
          then show "\<exists>k h' out'. withinBudget (t + k) m \<and>
                 iterationState ev st rf k h out = Some (h', out') \<and> ev out' = []"
            by blast
        qed
        with step IH show ?thesis by simp
      qed
    qed
  qed
qed



lemma run_from_failure_iff:
  "runUntilCorrect_from ev st rf m t h out = FAILURE \<longleftrightarrow>
     (\<exists>n. \<not> withinBudget (t + n) m \<and> iterationState ev st rf n h out \<noteq> None) \<or>
     (\<exists>k h' out'. withinBudget (t + k) m \<and>
        iterationState ev st rf k h out = Some (h', out') \<and> ev out' \<noteq> [] \<and>
        fst (st (ev out') h'))"
proof (induction ev st rf m t h out rule: runUntilCorrect_from.induct)
  case (1 ev st rf m t h out)
  let ?F = "\<lambda>ev st rf m t h out. runUntilCorrect_from ev st rf m t h out = FAILURE"
  let ?X = "\<lambda>t h out. \<exists>n. \<not> withinBudget (t + n) m \<and> iterationState ev st rf n h out \<noteq> None"
  let ?S = "\<lambda>t h out. \<exists>k h' out'. withinBudget (t + k) m \<and>
        iterationState ev st rf k h out = Some (h', out') \<and> ev out' \<noteq> [] \<and>
        fst (st (ev out') h')"
  show ?case
  proof (cases "withinBudget t m")
    case False
    then have "\<not> withinBudget (t + 0) m \<and> iterationState ev st rf 0 h out \<noteq> None" by simp
    then have "?X t h out" by blast
    with False show ?thesis by (subst runUntilCorrect_from.simps) (simp add: Let_def)
  next
    case wb: True
    show ?thesis
    proof (cases "ev out = []")
      case True
      have a: "\<not> ?X t h out"
      proof
        assume "?X t h out"
        then obtain n where n: "\<not> withinBudget (t + n) m" "iterationState ev st rf n h out \<noteq> None" by blast
        show False using n wb True by (cases n) auto
      qed
      have b: "\<not> ?S t h out"
      proof
        assume "?S t h out"
        then obtain k h' out' where k: "iterationState ev st rf k h out = Some (h', out')" "ev out' \<noteq> []" by blast
        show False using k True by (cases k) auto
      qed
      from wb True have "runUntilCorrect_from ev st rf m t h out = SUCCESS"
        by (subst runUntilCorrect_from.simps) (simp add: Let_def)
      with a b show ?thesis by simp
    next
      case ne: False
      obtain b h1 where s: "st (ev out) h = (b, h1)" by (cases "st (ev out) h")
      show ?thesis
      proof (cases b)
        case True
        have "withinBudget (t + 0) m \<and> iterationState ev st rf 0 h out = Some (h, out) \<and> ev out \<noteq> [] \<and> fst (st (ev out) h)"
          using wb ne s True by simp
        then have "?S t h out" by blast
        moreover have "runUntilCorrect_from ev st rf m t h out = FAILURE"
          using wb ne s True by (subst runUntilCorrect_from.simps) (simp add: Let_def)
        ultimately show ?thesis by simp
      next
        case False
        have step: "runUntilCorrect_from ev st rf m t h out =
              runUntilCorrect_from ev st rf m (t + 1) h1 (rf out (ev out))"
          using wb ne s False by (subst runUntilCorrect_from.simps) (simp add: Let_def)
        have IH: "?F ev st rf m (t + 1) h1 (rf out (ev out)) =
             (?X (t + 1) h1 (rf out (ev out)) \<or> ?S (t + 1) h1 (rf out (ev out)))"
          using "1.IH"[OF wb refl _ s[symmetric]] ne False by simp
        have X: "?X t h out = ?X (t + 1) h1 (rf out (ev out))"
        proof
          assume "?X t h out"
          then obtain n where n: "\<not> withinBudget (t + n) m" "iterationState ev st rf n h out \<noteq> None" by blast
          then obtain j where j: "n = Suc j" using wb by (cases n) auto
          with n ne s False have "\<not> withinBudget (t + 1 + j) m \<and> iterationState ev st rf j h1 (rf out (ev out)) \<noteq> None"
            by simp
          then show "?X (t + 1) h1 (rf out (ev out))" by blast
        next
          assume "?X (t + 1) h1 (rf out (ev out))"
          then obtain n where n: "\<not> withinBudget (t + 1 + n) m" "iterationState ev st rf n h1 (rf out (ev out)) \<noteq> None" by blast
          with ne s False have "\<not> withinBudget (t + Suc n) m \<and> iterationState ev st rf (Suc n) h out \<noteq> None"
            by simp
          then show "?X t h out" by blast
        qed
        have S: "?S t h out = ?S (t + 1) h1 (rf out (ev out))"
        proof
          assume "?S t h out"
          then obtain k h' out' where k: "withinBudget (t + k) m"
            "iterationState ev st rf k h out = Some (h', out')" "ev out' \<noteq> []" "fst (st (ev out') h')" by blast
          then obtain j where j: "k = Suc j" using s False by (cases k) auto
          with k ne s False have "withinBudget (t + 1 + j) m \<and>
              iterationState ev st rf j h1 (rf out (ev out)) = Some (h', out') \<and> ev out' \<noteq> [] \<and> fst (st (ev out') h')"
            by simp
          then show "?S (t + 1) h1 (rf out (ev out))" by blast
        next
          assume "?S (t + 1) h1 (rf out (ev out))"
          then obtain k h' out' where k: "withinBudget (t + 1 + k) m"
            "iterationState ev st rf k h1 (rf out (ev out)) = Some (h', out')" "ev out' \<noteq> []" "fst (st (ev out') h')"
            by blast
          with ne s False have "withinBudget (t + Suc k) m \<and>
              iterationState ev st rf (Suc k) h out = Some (h', out') \<and> ev out' \<noteq> [] \<and> fst (st (ev out') h')"
            by simp
          then show "?S t h out" by blast
        qed
        from step IH X S show ?thesis by simp
      qed
    qed
  qed
qed

text \<open>
  Claim C1, as the loop has it. The loop guard \<open>t < maxIterations\<close> is tested before the
  first evaluation, so the law holds for the iterations the loop enters: the run reports
  \<open>SUCCESS\<close> exactly when some entered iteration evaluates to an empty failing-MUST list
  (every earlier one having gone on to \<open>refine\<close>), and that test comes first in the
  iteration, so a contract whose MUST criteria all pass at the first evaluation succeeds at
  once whenever at least one iteration is allowed. The run reports \<open>FAILURE\<close> exactly when
  the budget runs out with every evaluation made so far non-empty and not stagnant (no
  evaluation at all when the budget is absent or not positive), or when an entered
  iteration with a non-empty failing-MUST list is stagnant.
\<close>

theorem runUntilCorrect_termination_law:
  "(runUntilCorrect ev st rf m h out = SUCCESS \<longleftrightarrow>
      (\<exists>k h' out'. withinBudget k m \<and>
         iterationState ev st rf k h out = Some (h', out') \<and> ev out' = []))
   \<and> (withinBudget 0 m \<and> ev out = [] \<longrightarrow> runUntilCorrect ev st rf m h out = SUCCESS)
   \<and> (runUntilCorrect ev st rf m h out = FAILURE \<longleftrightarrow>
        (\<exists>n. \<not> withinBudget n m \<and> iterationState ev st rf n h out \<noteq> None) \<or>
        (\<exists>k h' out'. withinBudget k m \<and>
           iterationState ev st rf k h out = Some (h', out') \<and> ev out' \<noteq> [] \<and>
           fst (st (ev out') h')))"
proof -
  have a: "runUntilCorrect ev st rf m h out = SUCCESS \<longleftrightarrow>
      (\<exists>k h' out'. withinBudget k m \<and>
         iterationState ev st rf k h out = Some (h', out') \<and> ev out' = [])"
    unfolding runUntilCorrect_def using run_from_success_iff[of ev st rf m 0 h out] by simp
  have b: "runUntilCorrect ev st rf m h out = SUCCESS" if "withinBudget 0 m" "ev out = []"
  proof -
    have "withinBudget 0 m \<and> iterationState ev st rf 0 h out = Some (h, out) \<and> ev out = []"
      using that by simp
    then show ?thesis unfolding a by blast
  qed
  have c: "runUntilCorrect ev st rf m h out = FAILURE \<longleftrightarrow>
        (\<exists>n. \<not> withinBudget n m \<and> iterationState ev st rf n h out \<noteq> None) \<or>
        (\<exists>k h' out'. withinBudget k m \<and>
           iterationState ev st rf k h out = Some (h', out') \<and> ev out' \<noteq> [] \<and>
           fst (st (ev out') h'))"
    unfolding runUntilCorrect_def using run_from_failure_iff[of ev st rf m 0 h out] by simp
  from a b c show ?thesis by blast
qed

theorem runUntilCorrect_termination_law_witness:
  "withinBudget 0 (Some 5) \<and> openDefects 0 = [] \<and>
   runUntilCorrect openDefects neverStagnant closeOneDefect (Some 5) () 0 = SUCCESS"
  using runUntilCorrect_termination_law
          [of openDefects neverStagnant closeOneDefect "Some 5" "()" 0]
  by (simp add: openDefects_def)

theorem runUntilCorrect_no_budget_counterexample:
  "openDefects 0 = [] \<and>
   runUntilCorrect openDefects neverStagnant closeOneDefect (Some 0) () 0 = FAILURE \<and>
   runUntilCorrect openDefects neverStagnant closeOneDefect None () 0 = FAILURE"
  unfolding runUntilCorrect_def
  by (simp add: openDefects_def runUntilCorrect_from.simps)


section \<open>Properties of the integrity pass\<close>

lemma bindE_Inr_iff: "bindE m f = Inr y \<longleftrightarrow> (\<exists>x. m = Inr x \<and> f x = Inr y)"
  by (cases m) auto

lemma bindE_Inl_iff: "bindE m f = Inl e \<longleftrightarrow> (m = Inl e \<or> (\<exists>x. m = Inr x \<and> f x = Inl e))"
  by (cases m) auto

lemma artifactLoop_fst:
  "fst (artifactLoop i arts ids) =
     map (\<lambda>a. if artifactId a = [] then a else repairDependsOn a) arts"
  by (induction arts arbitrary: i ids) (simp_all add: case_prod_beta)

lemma repaired_fields:
  "artifactId (if artifactId a = [] then a else repairDependsOn a) = artifactId a"
  "required (if artifactId a = [] then a else repairDependsOn a) = required a"
  "formats (if artifactId a = [] then a else repairDependsOn a) = formats a"
  "owners (if artifactId a = [] then a else repairDependsOn a) = owners a"
  "kind (if artifactId a = [] then a else repairDependsOn a) = kind a"
  "subtype (if artifactId a = [] then a else repairDependsOn a) = subtype a"
  by (simp_all add: repairDependsOn_def)







text \<open>What \<open>structuralChecks\<close> returns, when it returns.\<close>

lemma structuralChecks_Inr:
  assumes "structuralChecks inp ctx = Inr (spec1, ids, found)"
  shows "spec1 = (normalizeArrays inp)
           \<lparr>artifacts := map (\<lambda>a. if artifactId a = [] then a else repairDependsOn a)
                           (artifacts inp)\<rparr>"
    and "acceptance inp \<noteq> None"
    and "\<exists>rest. found = versionIssues inp @ rest"
proof -
  obtain arts ids' iss1 where al: "artifactLoop 0 (artifacts inp) [] = (arts, ids', iss1)"
    by (cases "artifactLoop 0 (artifacts inp) []") auto
  have arts: "arts = map (\<lambda>a. if artifactId a = [] then a else repairDependsOn a) (artifacts inp)"
    using artifactLoop_fst[of 0 "artifacts inp" "[]"] al by simp
  from assms al show "spec1 = (normalizeArrays inp)
           \<lparr>artifacts := map (\<lambda>a. if artifactId a = [] then a else repairDependsOn a)
                           (artifacts inp)\<rparr>"
    unfolding arts[symmetric]
    by (auto simp: structuralChecks_def Let_def normalizeArrays_def bindE_Inr_iff)
  from assms al show "acceptance inp \<noteq> None"
    by (auto simp: structuralChecks_def Let_def normalizeArrays_def bindE_Inr_iff
          acceptanceIssues_def split: option.splits)
  from assms al show "\<exists>rest. found = versionIssues inp @ rest"
    by (auto simp: structuralChecks_def Let_def normalizeArrays_def bindE_Inr_iff)
qed


lemma firstArtifactId_ok: "artifacts spec \<noteq> [] \<Longrightarrow> \<exists>x. firstArtifactId spec = Inr x"
  by (cases "artifacts spec") (auto simp: firstArtifactId_def)

lemma findLikelySpecArtifacts_ok:
  "artifacts spec \<noteq> [] \<Longrightarrow> \<exists>ts. findLikelySpecArtifacts spec = Inr ts \<and> ts \<noteq> []"
  using firstArtifactId_ok[of spec]
  by (auto simp: findLikelySpecArtifacts_def Let_def split: list.splits)




lemma filter_error_empty:
  "(filter (\<lambda>i. issueSeverity i = IssueError) iss = []) = (\<not> hasError iss)"
  by (induction iss) (auto simp: hasError_def)


lemma specIntegrityPass_unfold:
  assumes "artifacts inp \<noteq> []" "structuralChecks inp ctx = Inr (spec1, ids, found)"
    "injectDefaults opts spec1 = Inr spec"
  shows "specIntegrityPass inp ctx reg opts =
    (if hasError (found @ (if optRequireMustCoverage opts
                           then mustCoverageIssues reg spec ctx else []))
     then Inl (SpecIntegrityError
                 (found @ (if optRequireMustCoverage opts
                           then mustCoverageIssues reg spec ctx else [])))
     else Inr \<lparr>resultSpec = spec,
               issues = found @ (if optRequireMustCoverage opts
                                 then mustCoverageIssues reg spec ctx else []),
               normalized =
                 \<lparr>artifactIds = ids,
                  mustACs = map acId (filter (\<lambda>a. severity a = Must) (acceptanceOf spec))\<rparr>\<rparr>)"
  using assms
  by (simp add: specIntegrityPass_def deepClone_def Let_def filter_error_empty)



lemma specIntegrityPass_Inr:
  assumes "specIntegrityPass inp ctx reg opts = Inr r"
  shows "\<exists>spec1 ids found. structuralChecks inp ctx = Inr (spec1, ids, found) \<and>
           injectDefaults opts spec1 = Inr (resultSpec r)"
  using assms
  by (auto simp: specIntegrityPass_def deepClone_def Let_def
        split: if_splits sum.splits prod.splits)



lemma demo_pass_returns:
  "isl (specIntegrityPass demoSpec demoCtx demoRegistry None) = False"
  by code_simp






lemma canAnyLoop_iff:
  "canAnyLoop vs ac spec ctx \<longleftrightarrow> (\<exists>v\<in>set vs. canValidate v ac spec ctx = Some True)"
  by (induction vs) (auto split: option.splits bool.splits)

lemma error_issue_raises:
  assumes "artifacts inp \<noteq> []" "structuralChecks inp ctx = Inr (spec1, ids, found)"
    "injectDefaults opts spec1 = Inr spec" "optRequireMustCoverage opts"
    "ac \<in> set (acceptanceOf spec)" "severity ac = Must"
    "mkIssue IssueError c p \<in> set (coverageIssues reg spec ctx ac)"
  shows "\<exists>iss. specIntegrityPass inp ctx reg opts = Inl (SpecIntegrityError iss) \<and>
           mkIssue IssueError c p \<in> set iss"
proof -
  let ?all = "found @ mustCoverageIssues reg spec ctx"
  have m: "mkIssue IssueError c p \<in> set ?all"
    using assms(5,6,7) by (auto simp: mustCoverageIssues_def)
  have "issueSeverity (mkIssue IssueError c p) = IssueError" by (simp add: mkIssue_def)
  with m have "hasError ?all"
    unfolding hasError_def list_ex_iff by blast
  with m show ?thesis
    using specIntegrityPass_unfold[OF assms(1,2,3), of reg] assms(4) by simp
qed

text \<open>
  Claim C4. Let the pass reach the coverage loop (the contract has an artifact, and the
  structural checks and the injection return), with \<open>requireMustCoverage\<close> on, and take
  any MUST criterion of the contract as it stands after the injection. If it names no
  adapter and no registered validator's \<open>supportedTypes\<close> include its type, the pass
  throws a \<open>SpecIntegrityError\<close> with a \<open>NO_VALIDATOR_FOR_TYPE\<close> error for it. If it names
  no adapter, some registered validator supports its type, and no validator that supports
  its type accepts it (a \<open>canValidate\<close> that throws or answers \<open>false\<close>), the pass throws
  with an \<open>UNVERIFIABLE_MUST\<close> error for it. If it names an adapter, the coverage loop
  files \<open>EXPLICIT_VALIDATOR_MISSING\<close> for it, and the pass throws with it, exactly when no
  registered validator has that id; otherwise the loop files nothing for it.
\<close>

theorem mustCoverage_obligation:
  assumes "artifacts inp \<noteq> []" "structuralChecks inp ctx = Inr (spec1, ids, found)"
    "injectDefaults opts spec1 = Inr spec" "optRequireMustCoverage opts"
    "ac \<in> set (acceptanceOf spec)" "severity ac = Must"
  shows
    "(namedAdapter ac = None \<and> (\<forall>v\<in>set (validators reg). acType ac \<notin> set (supportedTypes v)) \<longrightarrow>
        (\<exists>iss. specIntegrityPass inp ctx reg opts = Inl (SpecIntegrityError iss) \<and>
           mkIssue IssueError ''NO_VALIDATOR_FOR_TYPE'' (acIndexPath spec ac @ ''/type'') \<in> set iss))
     \<and> (namedAdapter ac = None
          \<and> (\<exists>v\<in>set (validators reg). acType ac \<in> set (supportedTypes v))
          \<and> (\<forall>v\<in>set (validators reg).
                acType ac \<in> set (supportedTypes v) \<longrightarrow> canValidate v ac spec ctx \<noteq> Some True) \<longrightarrow>
        (\<exists>iss. specIntegrityPass inp ctx reg opts = Inl (SpecIntegrityError iss) \<and>
           mkIssue IssueError ''UNVERIFIABLE_MUST'' (acIndexPath spec ac) \<in> set iss))
     \<and> (\<forall>a. namedAdapter ac = Some a \<longrightarrow>
          (if \<exists>v\<in>set (validators reg). validatorId v = a
           then coverageIssues reg spec ctx ac = []
           else coverageIssues reg spec ctx ac =
                  [mkIssue IssueError ''EXPLICIT_VALIDATOR_MISSING''
                     (acIndexPath spec ac @ ''/rule/adapter'')] \<and>
                (\<exists>iss. specIntegrityPass inp ctx reg opts = Inl (SpecIntegrityError iss) \<and>
                   mkIssue IssueError ''EXPLICIT_VALIDATOR_MISSING''
                     (acIndexPath spec ac @ ''/rule/adapter'') \<in> set iss)))"
proof (intro conjI impI allI)
  assume h: "namedAdapter ac = None \<and> (\<forall>v\<in>set (validators reg). acType ac \<notin> set (supportedTypes v))"
  then have "candidatesFor reg ac = []"
    by (auto simp: candidatesFor_def filter_empty_conv)
  with h have "mkIssue IssueError ''NO_VALIDATOR_FOR_TYPE'' (acIndexPath spec ac @ ''/type'')
      \<in> set (coverageIssues reg spec ctx ac)"
    by (auto simp: coverageIssues_def typeCoverageIssues_def namedAdapter_def Let_def
          split: option.splits if_splits)
  then show "\<exists>iss. specIntegrityPass inp ctx reg opts = Inl (SpecIntegrityError iss) \<and>
           mkIssue IssueError ''NO_VALIDATOR_FOR_TYPE'' (acIndexPath spec ac @ ''/type'') \<in> set iss"
    using error_issue_raises[OF assms] by blast
next
  assume h: "namedAdapter ac = None
          \<and> (\<exists>v\<in>set (validators reg). acType ac \<in> set (supportedTypes v))
          \<and> (\<forall>v\<in>set (validators reg).
                acType ac \<in> set (supportedTypes v) \<longrightarrow> canValidate v ac spec ctx \<noteq> Some True)"
  then have ne: "candidatesFor reg ac \<noteq> []"
    by (auto simp: candidatesFor_def filter_empty_conv)
  from h have "\<not> canAnyLoop (candidatesFor reg ac) ac spec ctx"
    by (auto simp: canAnyLoop_iff candidatesFor_def)
  with h ne have "mkIssue IssueError ''UNVERIFIABLE_MUST'' (acIndexPath spec ac)
      \<in> set (coverageIssues reg spec ctx ac)"
    by (auto simp: coverageIssues_def typeCoverageIssues_def namedAdapter_def Let_def
          split: option.splits if_splits)
  then show "\<exists>iss. specIntegrityPass inp ctx reg opts = Inl (SpecIntegrityError iss) \<and>
           mkIssue IssueError ''UNVERIFIABLE_MUST'' (acIndexPath spec ac) \<in> set iss"
    using error_issue_raises[OF assms] by blast
next
  fix a assume n: "namedAdapter ac = Some a"
  then have e: "explicitAdapter ac = Some a" "a \<noteq> []"
    by (auto simp: namedAdapter_def split: option.splits if_splits)
  show "if \<exists>v\<in>set (validators reg). validatorId v = a
           then coverageIssues reg spec ctx ac = []
           else coverageIssues reg spec ctx ac =
                  [mkIssue IssueError ''EXPLICIT_VALIDATOR_MISSING''
                     (acIndexPath spec ac @ ''/rule/adapter'')] \<and>
                (\<exists>iss. specIntegrityPass inp ctx reg opts = Inl (SpecIntegrityError iss) \<and>
                   mkIssue IssueError ''EXPLICIT_VALIDATOR_MISSING''
                     (acIndexPath spec ac @ ''/rule/adapter'') \<in> set iss)"
  proof (cases "\<exists>v\<in>set (validators reg). validatorId v = a")
    case True
    then show ?thesis using e by (simp add: coverageIssues_def list_ex_iff)
  next
    case False
    then have c: "coverageIssues reg spec ctx ac =
                  [mkIssue IssueError ''EXPLICIT_VALIDATOR_MISSING''
                     (acIndexPath spec ac @ ''/rule/adapter'')]"
      using e by (simp add: coverageIssues_def list_ex_iff)
    then have "mkIssue IssueError ''EXPLICIT_VALIDATOR_MISSING''
                     (acIndexPath spec ac @ ''/rule/adapter'') \<in> set (coverageIssues reg spec ctx ac)"
      by simp
    from error_issue_raises[OF assms this] c False show ?thesis by simp
  qed
qed

lemma demo_checks:
  "structuralChecks demoSpec demoCtx = Inr (normalizeArrays demoSpec, [''spec-doc''], [])"
  "structuralChecks demoNamedSpec demoCtx = Inr (normalizeArrays demoNamedSpec, [''spec-doc''], [])"
  by code_simp+

lemma demo_inject: "injectDefaults None (normalizeArrays demoSpec) = Inr demoNormalized"
  by code_simp

lemma demo_named_inject:
  "injectDefaults None (normalizeArrays demoNamedSpec) = Inr demoNamedNormalized"
  by code_simp

lemma demo_facts:
  "artifacts demoSpec \<noteq> []" "optRequireMustCoverage None"
  "demoCriterion \<in> set (acceptanceOf demoNormalized)" "severity demoCriterion = Must"
  "namedAdapter demoCriterion = None"
  "acIndexPath demoNormalized demoCriterion = ''/acceptance/0''"
  by code_simp+

lemma demo_registry_facts:
  "validators emptyRegistry = []"
  "validators throwingRegistry = [throwingValidator]"
  "acType demoCriterion \<in> set (supportedTypes throwingValidator)"
  "canValidate throwingValidator demoCriterion demoNormalized demoCtx = None"
  by (simp_all add: emptyRegistry_def throwingRegistry_def throwingValidator_def demoCriterion_def)

lemma demo_named_facts:
  "artifacts demoNamedSpec \<noteq> []"
  "demoNamedCriterion \<in> set (acceptanceOf demoNamedNormalized)"
  "severity demoNamedCriterion = Must"
  "namedAdapter demoNamedCriterion = Some ''custom.checker''"
  "acIndexPath demoNamedNormalized demoNamedCriterion = ''/acceptance/0''"
  "list_ex (\<lambda>v. validatorId v = ''custom.checker'') (validators demoRegistry) = False"
  by code_simp+

theorem mustCoverage_obligation_witness:
  "artifacts demoSpec \<noteq> [] \<and> optRequireMustCoverage None
   \<and> structuralChecks demoSpec demoCtx = Inr (normalizeArrays demoSpec, [''spec-doc''], [])
   \<and> injectDefaults None (normalizeArrays demoSpec) = Inr demoNormalized
   \<and> demoCriterion \<in> set (acceptanceOf demoNormalized) \<and> severity demoCriterion = Must
   \<and> namedAdapter demoCriterion = None
   \<and> validators emptyRegistry = []
   \<and> (\<exists>iss. specIntegrityPass demoSpec demoCtx emptyRegistry None = Inl (SpecIntegrityError iss) \<and>
          mkIssue IssueError ''NO_VALIDATOR_FOR_TYPE'' ''/acceptance/0/type'' \<in> set iss)
   \<and> validators throwingRegistry = [throwingValidator]
   \<and> acType demoCriterion \<in> set (supportedTypes throwingValidator)
   \<and> canValidate throwingValidator demoCriterion demoNormalized demoCtx = None
   \<and> (\<exists>iss. specIntegrityPass demoSpec demoCtx throwingRegistry None = Inl (SpecIntegrityError iss) \<and>
          mkIssue IssueError ''UNVERIFIABLE_MUST'' ''/acceptance/0'' \<in> set iss)
   \<and> namedAdapter demoNamedCriterion = Some ''custom.checker''
   \<and> (\<exists>iss. specIntegrityPass demoNamedSpec demoCtx demoRegistry None
               = Inl (SpecIntegrityError iss) \<and>
          mkIssue IssueError ''EXPLICIT_VALIDATOR_MISSING'' ''/acceptance/0/rule/adapter'' \<in> set iss)"
proof -
  note a = mustCoverage_obligation[OF demo_facts(1) demo_checks(1) demo_inject demo_facts(2,3,4),
             of emptyRegistry]
  note b = mustCoverage_obligation[OF demo_facts(1) demo_checks(1) demo_inject demo_facts(2,3,4),
             of throwingRegistry]
  note c = mustCoverage_obligation[OF demo_named_facts(1) demo_checks(2) demo_named_inject
             demo_facts(2) demo_named_facts(2,3), of demoRegistry]
  have 1: "\<exists>iss. specIntegrityPass demoSpec demoCtx emptyRegistry None = Inl (SpecIntegrityError iss) \<and>
          mkIssue IssueError ''NO_VALIDATOR_FOR_TYPE'' ''/acceptance/0/type'' \<in> set iss"
    using a demo_facts(5,6) demo_registry_facts(1) by simp
  have 2: "\<exists>iss. specIntegrityPass demoSpec demoCtx throwingRegistry None = Inl (SpecIntegrityError iss) \<and>
          mkIssue IssueError ''UNVERIFIABLE_MUST'' ''/acceptance/0'' \<in> set iss"
    using b demo_facts(5,6) demo_registry_facts(2,3,4) by simp
  have 3: "\<exists>iss. specIntegrityPass demoNamedSpec demoCtx demoRegistry None
               = Inl (SpecIntegrityError iss) \<and>
          mkIssue IssueError ''EXPLICIT_VALIDATOR_MISSING'' ''/acceptance/0/rule/adapter'' \<in> set iss"
    using c demo_named_facts(4,5,6) by (simp add: list_ex_iff)
  from 1 2 3 demo_facts demo_checks(1) demo_inject demo_registry_facts demo_named_facts(4)
  show ?thesis by simp
qed

lemma acId_defaults [simp]:
  "acId (acUnivStruct t) = ''AC-UNIV-STRUCT-1''"
  "acId (acUnivTrace t p) = ''AC-UNIV-TRACE-1''"
  "acId (acUnivConsist t) = ''AC-UNIV-CONSIST-1''"
  "acId (acUnivProv t r) = ''AC-UNIV-PROV-1''"
  by (simp_all add: acUnivStruct_def acUnivTrace_def acUnivConsist_def acUnivProv_def)

lemma injectDefaultAcceptance_Inr:
  assumes "injectDefaultAcceptance spec pat = Inr spec'"
  shows "\<exists>acc acc4. acceptance spec = Some acc \<and> spec' = spec\<lparr>acceptance := Some acc4\<rparr> \<and>
           ''AC-UNIV-STRUCT-1'' \<in> set (map acId acc4) \<and>
           ''AC-UNIV-TRACE-1'' \<in> set (map acId acc4) \<and>
           ''AC-UNIV-CONSIST-1'' \<in> set (map acId acc4) \<and>
           ''AC-UNIV-PROV-1'' \<in> set (map acId acc4)"
proof -
  from assms obtain acc where acc: "acceptance spec = Some acc"
    by (auto simp: injectDefaultAcceptance_def split: option.splits)
  let ?ex = "set (map acId acc)"
  from assms acc obtain acc1 acc2 acc3 acc4 where
    s1: "(if ''AC-UNIV-STRUCT-1'' \<in> ?ex then Inr acc
          else bindE (findLikelySpecArtifacts spec) (\<lambda>targets.
                 Inr (acc @ [acUnivStruct targets]))) = Inr acc1" and
    s2: "(if ''AC-UNIV-TRACE-1'' \<in> ?ex then Inr acc1
          else bindE (findNarrativeArtifacts spec) (\<lambda>targets.
                 Inr (acc1 @ [acUnivTrace targets pat]))) = Inr acc2" and
    s3: "acc3 = (if ''AC-UNIV-CONSIST-1'' \<in> ?ex then acc2
                 else acc2 @ [acUnivConsist (map artifactId (filter required (artifacts spec)))])" and
    s4: "(if ''AC-UNIV-PROV-1'' \<in> ?ex then Inr acc3
          else bindE (packagingInputs spec) (\<lambda>targets.
               bindE (policyRequire spec) (\<lambda>req.
                 Inr (acc3 @ [acUnivProv targets req])))) = Inr acc4" and
    s5: "spec' = spec\<lparr>acceptance := Some acc4\<rparr>"
    unfolding injectDefaultAcceptance_def Let_def
    by (simp add: bindE_Inr_iff) blast
  have p1: "?ex \<subseteq> set (map acId acc1)" "''AC-UNIV-STRUCT-1'' \<in> set (map acId acc1)"
    using s1 by (auto simp: bindE_Inr_iff split: if_splits)
  have p2: "set (map acId acc1) \<subseteq> set (map acId acc2)" "''AC-UNIV-TRACE-1'' \<in> set (map acId acc2)"
    using s2 p1 by (auto simp: bindE_Inr_iff split: if_splits)
  have p3: "set (map acId acc2) \<subseteq> set (map acId acc3)" "''AC-UNIV-CONSIST-1'' \<in> set (map acId acc3)"
    using s3 p1 p2 by (auto split: if_splits)
  have p4: "set (map acId acc3) \<subseteq> set (map acId acc4)"
    using s4 by (auto simp: bindE_Inr_iff split: if_splits)
  have p5: "''AC-UNIV-PROV-1'' \<in> set (map acId acc4)"
  proof (cases "''AC-UNIV-PROV-1'' \<in> ?ex")
    case True
    with p1(1) p2(1) p3(1) p4 show ?thesis by blast
  next
    case False
    with s4 show ?thesis by (auto simp: bindE_Inr_iff)
  qed
  from p1 p2 p3 p4 p5 acc s5 show ?thesis by blast
qed

lemma injectDefaultAcceptance_present:
  assumes "acceptance spec = Some acc"
    "''AC-UNIV-STRUCT-1'' \<in> set (map acId acc)"
    "''AC-UNIV-TRACE-1'' \<in> set (map acId acc)"
    "''AC-UNIV-CONSIST-1'' \<in> set (map acId acc)"
    "''AC-UNIV-PROV-1'' \<in> set (map acId acc)"
  shows "injectDefaultAcceptance spec pat = Inr spec"
proof -
  have "spec\<lparr>acceptance := Some acc\<rparr> = spec" using assms(1) by (cases spec) simp
  with assms show ?thesis by (simp add: injectDefaultAcceptance_def Let_def)
qed

lemma rubricsOf_injectDefaultRubrics:
  "''RUBRIC-OVERALL-v1'' \<in> set (map rubricId (rubricsOf (injectDefaultRubrics spec))) \<and>
   ''RUBRIC-CLARITY-v1'' \<in> set (map rubricId (rubricsOf (injectDefaultRubrics spec)))"
proof -
  have "rubricId rubricOverall = ''RUBRIC-OVERALL-v1''" "rubricId rubricClarity = ''RUBRIC-CLARITY-v1''"
    by (simp_all add: rubricOverall_def rubricClarity_def)
  then show ?thesis
    by (auto simp: injectDefaultRubrics_def rubricsOf_def orEmpty_def Let_def)
qed

lemma injectDefaultRubrics_present:
  assumes "''RUBRIC-OVERALL-v1'' \<in> set (map rubricId (rubricsOf spec))"
    "''RUBRIC-CLARITY-v1'' \<in> set (map rubricId (rubricsOf spec))"
    "rubrics spec = Some rs"
  shows "injectDefaultRubrics spec = spec"
proof -
  have "spec\<lparr>rubrics := Some rs\<rparr> = spec" using assms(3) by (cases spec) simp
  with assms show ?thesis
    by (simp add: injectDefaultRubrics_def rubricsOf_def orEmpty_def Let_def)
qed

lemma normalizeArrays_fix:
  assumes "rubrics spec = Some rs" "relationships spec = Some rl" "gates spec = Some gs"
  shows "normalizeArrays spec = spec"
proof -
  have "spec\<lparr>relationships := Some rl, rubrics := Some rs, gates := Some gs\<rparr> = spec"
    using assms by (cases spec) simp
  with assms show ?thesis by (simp add: normalizeArrays_def orEmpty_def)
qed

text \<open>The shape of a contract that the pass returns after injecting.\<close>

lemma injected_shape:
  assumes "structuralChecks inp ctx = Inr (spec1, ids, found)"
    "injectDefaults opts spec1 = Inr spec" "optInject opts"
  shows "normalizeArrays spec = spec" "injectDefaultRubrics spec = spec"
    "\<exists>acc. acceptance spec = Some acc \<and>
        ''AC-UNIV-STRUCT-1'' \<in> set (map acId acc) \<and>
        ''AC-UNIV-TRACE-1'' \<in> set (map acId acc) \<and>
        ''AC-UNIV-CONSIST-1'' \<in> set (map acId acc) \<and>
        ''AC-UNIV-PROV-1'' \<in> set (map acId acc)"
proof -
  let ?n = "injectDefaultRubrics spec1"
  have a: "injectDefaultAcceptance ?n (optCitationPattern opts) = Inr spec"
    using assms(2,3) by (simp add: injectDefaults_def)
  from injectDefaultAcceptance_Inr[OF a] obtain acc acc4 where
    sp: "spec = ?n\<lparr>acceptance := Some acc4\<rparr>" and
    ids: "''AC-UNIV-STRUCT-1'' \<in> set (map acId acc4)"
         "''AC-UNIV-TRACE-1'' \<in> set (map acId acc4)"
         "''AC-UNIV-CONSIST-1'' \<in> set (map acId acc4)"
         "''AC-UNIV-PROV-1'' \<in> set (map acId acc4)"
    by blast
  note s1 = structuralChecks_Inr(1)[OF assms(1)]
  have f: "rubrics spec = rubrics ?n" "relationships spec = relationships spec1"
    "gates spec = gates spec1" "acceptance spec = Some acc4"
    by (simp_all add: sp injectDefaultRubrics_def Let_def)
  obtain rs where rs: "rubrics ?n = Some rs" by (simp add: injectDefaultRubrics_def Let_def)
  have rl: "relationships spec1 = Some (orEmpty (relationships inp))"
    and gs: "gates spec1 = Some (orEmpty (gates inp))"
    by (simp_all add: s1 normalizeArrays_def)
  show "normalizeArrays spec = spec"
    by (rule normalizeArrays_fix[of _ rs "orEmpty (relationships inp)" "orEmpty (gates inp)"])
       (simp_all add: f rs rl gs)
  have r: "rubricsOf spec = rubricsOf ?n" by (simp add: rubricsOf_def f)
  show "injectDefaultRubrics spec = spec"
    by (rule injectDefaultRubrics_present[of _ rs])
       (simp_all only: r rubricsOf_injectDefaultRubrics f rs)
  from f(4) ids show "\<exists>acc. acceptance spec = Some acc \<and>
        ''AC-UNIV-STRUCT-1'' \<in> set (map acId acc) \<and>
        ''AC-UNIV-TRACE-1'' \<in> set (map acId acc) \<and>
        ''AC-UNIV-CONSIST-1'' \<in> set (map acId acc) \<and>
        ''AC-UNIV-PROV-1'' \<in> set (map acId acc)"
    by blast
qed

lemma reinject_any_artifacts:
  assumes "injectDefaultRubrics spec = spec"
    "acceptance spec = Some acc"
    "''AC-UNIV-STRUCT-1'' \<in> set (map acId acc)"
    "''AC-UNIV-TRACE-1'' \<in> set (map acId acc)"
    "''AC-UNIV-CONSIST-1'' \<in> set (map acId acc)"
    "''AC-UNIV-PROV-1'' \<in> set (map acId acc)"
  shows "injectDefaults opts' (spec\<lparr>artifacts := arts\<rparr>) = Inr (spec\<lparr>artifacts := arts\<rparr>)"
proof -
  have "injectDefaultRubrics (spec\<lparr>artifacts := arts\<rparr>) = (injectDefaultRubrics spec)\<lparr>artifacts := arts\<rparr>"
    by (simp add: injectDefaultRubrics_def rubricsOf_def Let_def)
  then have r: "injectDefaultRubrics (spec\<lparr>artifacts := arts\<rparr>) = spec\<lparr>artifacts := arts\<rparr>"
    by (simp only: assms(1))
  have "acceptance (spec\<lparr>artifacts := arts\<rparr>) = Some acc" using assms(2) by simp
  from injectDefaultAcceptance_present[OF this assms(3-6)] r
  show ?thesis by (simp add: injectDefaults_def)
qed

text \<open>
  Claim C8. Let the pass return a contract with the defaults injected. Injecting the default
  rubrics or the default acceptance criteria into that contract again changes nothing (each
  default is found by its id), the normalization of a second pass reproduces the contract,
  and whatever a second pass on it returns carries the same rubric list and the same
  acceptance list.
\<close>

theorem injection_idempotent:
  assumes "specIntegrityPass inp ctx reg opts = Inr r" "optInject opts"
  shows "injectDefaultRubrics (resultSpec r) = resultSpec r
       \<and> injectDefaultAcceptance (resultSpec r) pat = Inr (resultSpec r)
       \<and> injectDefaults opts' (normalizeArrays (resultSpec r)) = Inr (resultSpec r)
       \<and> (\<forall>r2. specIntegrityPass (resultSpec r) ctx' reg' opts' = Inr r2 \<longrightarrow>
             rubrics (resultSpec r2) = rubrics (resultSpec r) \<and>
             acceptance (resultSpec r2) = acceptance (resultSpec r))"
proof -
  from specIntegrityPass_Inr[OF assms(1)] obtain spec1 ids found where
    sc: "structuralChecks inp ctx = Inr (spec1, ids, found)" and
    inj: "injectDefaults opts spec1 = Inr (resultSpec r)"
    by blast
  note sh = injected_shape[OF sc inj assms(2)]
  from sh(3) obtain acc where acc: "acceptance (resultSpec r) = Some acc"
    "''AC-UNIV-STRUCT-1'' \<in> set (map acId acc)" "''AC-UNIV-TRACE-1'' \<in> set (map acId acc)"
    "''AC-UNIV-CONSIST-1'' \<in> set (map acId acc)" "''AC-UNIV-PROV-1'' \<in> set (map acId acc)"
    by blast
  note again = reinject_any_artifacts[OF sh(2) acc]
  have c2: "injectDefaultAcceptance (resultSpec r) pat = Inr (resultSpec r)"
    by (rule injectDefaultAcceptance_present[OF acc])
  have c3: "injectDefaults opts' (normalizeArrays (resultSpec r)) = Inr (resultSpec r)"
    using again[of opts' "artifacts (resultSpec r)"] by (simp add: sh(1))
  have c4: "rubrics (resultSpec r2) = rubrics (resultSpec r) \<and>
            acceptance (resultSpec r2) = acceptance (resultSpec r)"
    if "specIntegrityPass (resultSpec r) ctx' reg' opts' = Inr r2" for r2
  proof -
    from specIntegrityPass_Inr[OF that] obtain s1 ids2 found2 where
      sc2: "structuralChecks (resultSpec r) ctx' = Inr (s1, ids2, found2)" and
      inj2: "injectDefaults opts' s1 = Inr (resultSpec r2)"
      by blast
    from structuralChecks_Inr(1)[OF sc2] obtain arts where
      s1: "s1 = (resultSpec r)\<lparr>artifacts := arts\<rparr>"
      by (simp add: sh(1))
    from inj2 again[of opts' arts] have "resultSpec r2 = (resultSpec r)\<lparr>artifacts := arts\<rparr>"
      by (simp add: s1)
    then show ?thesis by simp
  qed
  from sh(2) c2 c3 c4 show ?thesis by blast
qed

theorem injection_idempotent_witness:
  "optInject None \<and>
   (\<exists>r. specIntegrityPass demoSpec demoCtx demoRegistry None = Inr r
       \<and> injectDefaultRubrics (resultSpec r) = resultSpec r
       \<and> injectDefaultAcceptance (resultSpec r) None = Inr (resultSpec r)
       \<and> injectDefaults None (normalizeArrays (resultSpec r)) = Inr (resultSpec r))"
proof -
  have o: "optInject None" by (simp add: optInject_def)
  from demo_pass_returns obtain r where
    r: "specIntegrityPass demoSpec demoCtx demoRegistry None = Inr r"
    by (cases "specIntegrityPass demoSpec demoCtx demoRegistry None") auto
  from injection_idempotent[OF r o, of None None demoCtx demoRegistry] r o
  show ?thesis by blast
qed

lemma structure_must_has_targets:
  assumes "artifacts spec \<noteq> []"
  shows "\<exists>ts. findLikelySpecArtifacts spec = Inr ts \<and> ts \<noteq> []"
  using findLikelySpecArtifacts_ok[OF assms] .

text \<open>
  Claim C3, at a contract with one required artifact and no packaging step. The pass
  returns; the structural-completeness MUST it injected targets the artifact, and the
  provenance MUST it injected has the empty target list: its targets are the inputs of the
  packaging steps, with no fallback.
\<close>

theorem injected_provenance_must_without_targets:
  "packaging demoSpec = Some []
   \<and> map (\<lambda>a. (acId a, severity a, targetArtifacts a))
       (filter (\<lambda>a. acId a = ''AC-UNIV-PROV-1'' \<or> acId a = ''AC-UNIV-STRUCT-1'')
          (case specIntegrityPass demoSpec demoCtx demoRegistry None of
             Inr r \<Rightarrow> acceptanceOf (resultSpec r) | Inl e \<Rightarrow> []))
     = [(''AC-UNIV-STRUCT-1'', Must, Some [''spec-doc'']), (''AC-UNIV-PROV-1'', Must, Some [])]"
  by code_simp

section \<open>Properties of the validators\<close>


lemma coverageLoop_error:
  "coverageLoop rt spec ctx t targets acc = Inl e \<Longrightarrow>
     \<exists>aid\<in>set targets. readArtifactText spec ctx aid = Inl e"
proof (induction targets arbitrary: acc)
  case Nil
  then show ?case by simp
next
  case (Cons aid rest)
  then show ?case by (auto simp: bindE_Inl_iff)
qed




lemma traceabilityValidate_Inl:
  assumes "rule ac = Some r" "traceabilityValidate rt ac spec ctx = Inl e"
  shows "newRegExp rt (patternSourceOf r) = Inl e
       \<or> (\<exists>aid\<in>set (orEmpty (targetArtifacts ac)). readArtifactText spec ctx aid = Inl e)
       \<or> (\<exists>tx. writeEvidence ctx (evidenceUriFor (acId ac)) tx = Inl e)"
proof (cases "newRegExp rt (patternSourceOf r)")
  case (Inl e')
  with assms show ?thesis by (simp add: traceabilityValidate_def Let_def)
next
  case t: (Inr t)
  show ?thesis
  proof (cases "coverageLoop rt spec ctx t (orEmpty (targetArtifacts ac)) []")
    case (Inl e')
    with assms t have "e' = e" by (simp add: traceabilityValidate_def Let_def)
    with Inl coverageLoop_error show ?thesis by blast
  next
    case (Inr per)
    with assms t have "\<exists>tx. writeEvidence ctx (evidenceUriFor (acId ac)) tx = Inl e"
      by (auto simp: traceabilityValidate_def Let_def bindE_Inl_iff split: prod.splits)
    then show ?thesis by blast
  qed
qed






lemma length_objectKeys [simp]: "length (objectKeys obj) = length obj"
proof -
  have "length (filter isArrayIndex (map fst obj)) + length (filter (\<lambda>k. \<not> isArrayIndex k) (map fst obj))
        = length (map fst obj)"
    by (rule sum_length_filter_compl)
  then show ?thesis by (simp add: objectKeys_def)
qed

lemma few_texts_no_signals:
  assumes "length texts < 2"
  shows "findContradictionSignals rt texts = []"
  using assms by (simp add: findContradictionSignals_def Let_def)

text \<open>
  What \<open>readTexts\<close> collects: one entry for every target that can be read, repetitions
  counted once, except a target with the id \<open>__proto__\<close>.
\<close>

lemma readTexts_keys:
  "set (map fst (readTexts spec ctx targets texts)) =
     set (map fst texts) \<union>
     {aid \<in> set targets. aid \<noteq> ''__proto__'' \<and> (\<exists>t. readArtifactText spec ctx aid = Inr t)}"
proof (induction targets arbitrary: texts)
  case Nil
  then show ?case by simp
next
  case (Cons aid rest)
  show ?case
  proof (cases "readArtifactText spec ctx aid")
    case (Inl e)
    then show ?thesis using Cons[of texts] by auto
  next
    case (Inr tx)
    have "set (map fst (objSet texts aid tx)) =
            (if aid = ''__proto__'' then set (map fst texts) else insert aid (set (map fst texts)))"
      by (simp add: objSet_def dom_update)
    with Inr show ?thesis using Cons[of "objSet texts aid tx"] by auto
  qed
qed

lemma readTexts_distinct:
  "distinct (map fst texts) \<Longrightarrow> distinct (map fst (readTexts spec ctx targets texts))"
proof (induction targets arbitrary: texts)
  case Nil
  then show ?case by simp
next
  case (Cons aid rest)
  have "distinct (map fst (objSet texts aid tx))" for tx
    using Cons.prems by (simp add: objSet_def distinct_update)
  with Cons show ?case by (cases "readArtifactText spec ctx aid") simp_all
qed

lemma readTexts_count:
  "length (readTexts spec ctx targets []) =
     card {aid \<in> set targets. aid \<noteq> ''__proto__'' \<and> (\<exists>t. readArtifactText spec ctx aid = Inr t)}"
proof -
  have "length (readTexts spec ctx targets []) = length (map fst (readTexts spec ctx targets []))"
    by simp
  also have "\<dots> = card (set (map fst (readTexts spec ctx targets [])))"
    using readTexts_distinct[of "[]" spec ctx targets] by (simp only: distinct_card list.map distinct.simps)
  finally show ?thesis by (simp only: readTexts_keys) simp
qed

text \<open>
  Claim C10. When the targets of a consistency criterion yield fewer than two texts (no
  target, one target, the same target twice, or every read but one throwing), \<open>validate\<close>
  returns status \<open>pass\<close>; the only way it does not return is that the store rejects the
  evidence write.
\<close>

theorem consistency_single_artifact_passes:
  assumes "length (readTexts spec ctx (orEmpty (targetArtifacts ac)) []) < 2"
  shows "(case consistencyValidate rt ac spec ctx of
            Inr (r, ctx') \<Rightarrow> status r = Pass
          | Inl e \<Rightarrow> (\<exists>text. writeEvidence ctx (evidenceUriFor (acId ac)) text = Inl e))"
proof -
  note n = few_texts_no_signals[OF assms, of rt]
  show ?thesis
  proof (cases "consistencyValidate rt ac spec ctx")
    case (Inl e)
    then show ?thesis
      by (auto simp: consistencyValidate_def Let_def n bindE_Inl_iff split: prod.splits)
  next
    case (Inr p)
    then show ?thesis
      by (auto simp: consistencyValidate_def Let_def n bindE_Inr_iff mkResult_def split: prod.splits)
  qed
qed

theorem consistency_single_artifact_passes_witness:
  "orEmpty (targetArtifacts demoConsistCriterion) = [''spec-doc'', ''spec-doc'']
   \<and> length (readTexts demoSpec demoCtx (orEmpty (targetArtifacts demoConsistCriterion)) []) < 2
   \<and> statusOf (consistencyValidate demoRuntime demoConsistCriterion demoSpec demoCtx) = Some Pass"
proof -
  have t: "orEmpty (targetArtifacts demoConsistCriterion) = [''spec-doc'', ''spec-doc'']"
    by code_simp
  have h: "length (readTexts demoSpec demoCtx (orEmpty (targetArtifacts demoConsistCriterion)) []) < 2"
    by code_simp
  have "isl (consistencyValidate demoRuntime demoConsistCriterion demoSpec demoCtx) = False"
    by code_simp
  with consistency_single_artifact_passes[OF h, of demoRuntime] t h show ?thesis
    by (auto simp: statusOf_def split: sum.splits)
qed

lemma writeEvidence_aiJudge:
  "writeEvidence ctx u tx = Inr (ev, ctx') \<Longrightarrow> aiJudge ctx' = aiJudge ctx"
  by (auto simp: writeEvidence_def Let_def bindE_Inr_iff)

lemma provenance_fail_without_signals:
  assumes "provenanceSignals ctx = None" "provenanceValidate rt ac spec ctx = Inr (r, ctx')"
  shows "status r = Fail"
  using assms by (auto simp: provenanceValidate_def bindE_Inr_iff mkResult_def split: prod.splits)

lemma provenance_pass_iff:
  assumes "provenanceSignals ctx = Some sig" "provenanceValidate rt ac spec ctx = Inr (r, ctx')"
  shows "\<exists>required. requiredOf ac = Inr (JArr required) \<and>
           (status r = Pass \<longleftrightarrow>
              (\<forall>x\<in>set required. mapLookupTruthy (signalMap sig) (propertyKey rt x)))"
proof -
  from assms obtain v required where req: "requiredOf ac = Inr v" "asArray v = Inr required"
    by (auto simp: provenanceValidate_def bindE_Inr_iff)
  from req(2) have v: "v = JArr required" by (cases v) (simp_all add: asArray_def)
  from assms req have "status r =
      (if filter (\<lambda>x. \<not> mapLookupTruthy (signalMap sig) (propertyKey rt x)) required = []
       then Pass else Fail)"
    by (auto simp: provenanceValidate_def Let_def bindE_Inr_iff mkResult_def split: prod.splits)
  then have "status r = Pass \<longleftrightarrow>
      (\<forall>x\<in>set required. mapLookupTruthy (signalMap sig) (propertyKey rt x))"
    by (auto simp: filter_empty_conv)
  with req(1) v show ?thesis by blast
qed

lemma mapLookupTruthy_own:
  "k \<notin> set objectPrototypeKeys \<Longrightarrow> mapLookupTruthy m k \<longleftrightarrow> map_of m k = Some True"
  by (auto simp: mapLookupTruthy_def split: option.splits)

text \<open>
  Claim C6, at a criterion that requires \<open>toString\<close> while every provenance signal of the
  context is false. The name is no key of the signal map, yet \<open>map[r]\<close> finds the method
  every object inherits, the name is not counted missing, and the status is \<open>pass\<close>.
\<close>

theorem provenance_inherited_name_passes:
  "provenanceSignals demoCtxAllFalse = Some noSignals
   \<and> map_of (signalMap noSignals) ''toString'' = None
   \<and> requiredOf demoInheritedCriterion = Inr (JArr [JStr ''toString''])
   \<and> statusOf (provenanceValidate demoRuntime demoInheritedCriterion demoSpec demoCtxAllFalse)
       = Some Pass"
  by code_simp

lemma rubricTextFor_placeholder:
  "rubricTextFor rt r spec =
     ''Rubric '' @ templateStr rt (map_of r ''rubricRef'') @ '' not found in spec.''"
  by (simp add: rubricTextFor_def Let_def rubricTextProperty_def split: option.splits)

text \<open>
  \<open>validate\<close> of the rubric validator rejects whenever the criterion has a rule and a first
  target that is not the empty string, with or without a judge.
\<close>

lemma rubric_rejects_with_target:
  assumes "rule ac = Some r" "firstTarget ac = Some t" "t \<noteq> []"
  shows "rubricValidate rt ac spec ctx = Inl (ReferenceError ''sha256Hex is not defined'')"
  using assms
  by (simp add: rubricValidate_def Let_def rubricContent_def safeReadText_def
        readArtifactTextShifted_def)

lemma rubricContent_Inr:
  "rubricContent ac ctx = Inr (c, ctx') \<Longrightarrow>
     c = [] \<and> ctx' = ctx \<and> (firstTarget ac = None \<or> firstTarget ac = Some [])"
  by (auto simp: rubricContent_def safeReadText_def readArtifactTextShifted_def
        split: option.splits if_splits)

text \<open>For a criterion without a first target the two outcomes are as the claim says.\<close>

lemma rubric_skip_without_judge:
  assumes "aiJudge ctx = None" "rubricValidate rt ac spec ctx = Inr (r, ctx')"
  shows "status r = Skip"
proof -
  from assms(2) obtain rl where rl: "rule ac = Some rl"
    by (auto simp: rubricValidate_def split: option.splits)
  from assms(2) rl obtain c ctx1 where c: "rubricContent ac ctx = Inr (c, ctx1)"
    by (auto simp: rubricValidate_def Let_def bindE_Inr_iff)
  with assms(1) have j: "aiJudge ctx1 = None" using rubricContent_Inr by fastforce
  from assms(2) rl c j show ?thesis
    by (auto simp: rubricValidate_def Let_def bindE_Inr_iff mkResult_def split: prod.splits)
qed

lemma rubric_pass_iff_score:
  assumes "aiJudge ctx = Some judge" "rubricValidate rt ac spec ctx = Inr (r, ctx')"
  shows "\<exists>rl judged. rule ac = Some rl \<and>
           judge \<lparr>rubricText = rubricTextFor rt rl spec, content = [],
                  judgePassThreshold = passThresholdOf rl, judgeAcId = acId ac\<rparr> = Inr judged
           \<and> (status r = Pass \<longleftrightarrow> scoreAtLeast rt (score judged) (passThresholdOf rl))
           \<and> (status r = Pass \<or> status r = Fail)"
proof -
  from assms(2) obtain rl where rl: "rule ac = Some rl"
    by (auto simp: rubricValidate_def split: option.splits)
  from assms(2) rl obtain c ctx1 where c: "rubricContent ac ctx = Inr (c, ctx1)"
    by (auto simp: rubricValidate_def Let_def bindE_Inr_iff)
  with assms(1) have j: "aiJudge ctx1 = Some judge" "c = []" using rubricContent_Inr by fastforce+
  from assms(2) rl c j obtain judged where
    jd: "judge \<lparr>rubricText = rubricTextFor rt rl spec, content = [],
               judgePassThreshold = passThresholdOf rl, judgeAcId = acId ac\<rparr> = Inr judged"
    by (auto simp: rubricValidate_def Let_def bindE_Inr_iff)
  from assms(2) rl c j jd have
    "status r = (if scoreAtLeast rt (score judged) (passThresholdOf rl) then Pass else Fail)"
    by (auto simp: rubricValidate_def Let_def bindE_Inr_iff mkResult_def split: prod.splits)
  with rl jd show ?thesis by auto
qed

lemma demo_rubric_facts:
  "rule demoRubricCriterion = Some [(''rubricRef'', JStr ''RUBRIC-OVERALL-v1'')]"
  "firstTarget demoRubricCriterion = Some ''spec-doc''"
  "aiJudge demoCtx = None"
  "aiJudge demoJudgeCtx = Some lenientJudge"
  by (simp_all add: demoRubricCriterion_def firstTarget_def orEmpty_def demoCtx_def
        demoJudgeCtx_def)

lemma demo_rubric_readable:
  "readArtifactText demoRubricSpec demoCtx ''spec-doc'' = Inr demoText"
  "rubricCanValidate demoRubricCriterion demoRubricSpec = Some True"
  by code_simp+

text \<open>
  Claim C5, at a rubric criterion whose rubric resolves and whose first target can be
  read. Without a judge in the context \<open>validate\<close> does not return \<open>skip\<close>: it rejects
  with the \<open>ReferenceError\<close> that \<open>safeReadText\<close> throws. With a judge that would give any
  text the top score it rejects in the same way, before the judge is called, so it does
  not return \<open>pass\<close> either.
\<close>

theorem rubric_validate_rejects_on_any_target:
  "rubricCanValidate demoRubricCriterion demoRubricSpec = Some True
   \<and> firstTarget demoRubricCriterion = Some ''spec-doc''
   \<and> readArtifactText demoRubricSpec demoCtx ''spec-doc'' = Inr demoText
   \<and> aiJudge demoCtx = None
   \<and> rubricValidate demoRuntime demoRubricCriterion demoRubricSpec demoCtx
       = Inl (ReferenceError ''sha256Hex is not defined'')
   \<and> aiJudge demoJudgeCtx = Some lenientJudge
   \<and> rubricValidate demoRuntime demoRubricCriterion demoRubricSpec demoJudgeCtx
       = Inl (ReferenceError ''sha256Hex is not defined'')"
proof -
  have ne: "''spec-doc'' \<noteq> []" by simp
  note rej = rubric_rejects_with_target[OF demo_rubric_facts(1,2) ne]
  from rej[of demoRuntime demoRubricSpec demoCtx] rej[of demoRuntime demoRubricSpec demoJudgeCtx]
    demo_rubric_facts(2,3,4) demo_rubric_readable
  show ?thesis by simp
qed

end
